theory Spec2Isabelle
  imports Complex_Main "HOL-Library.Word"
begin

section \<open>The SkSL rehydrator (src/sksl/SkSLRehydrator.cpp)\<close>

text \<open>
  The rehydrator is a recursive-descent decoder over a byte buffer. Every member function
  of \<^verbatim>\<open>Rehydrator\<close> becomes a function from the decoder state to either an error or a
  result together with the new state. Objects that the C++ code shares through pointers
  (symbol tables, symbols, modifier pools) live in explicit heaps, addressed by their index.
\<close>

subsection \<open>Build configuration and constants of the header\<close>

type_synonym byte = "8 word"

text \<open>
  The constants of the \<^verbatim>\<open>Command\<close> enumeration that the source file dispatches on. Their
  numbering is declared in the header and is a parameter of the model (\<open>commandOf\<close> below).
\<close>

datatype command =
    kArrayType_Command | kBinary_Command | kBlock_Command | kBoolLiteral_Command
  | kBreak_Command | kBuiltinLayout_Command | kConstructorArray_Command
  | kConstructorArrayCast_Command | kConstructorCompound_Command
  | kConstructorCompoundCast_Command | kConstructorDiagonalMatrix_Command
  | kConstructorMatrixResize_Command | kConstructorScalarCast_Command
  | kConstructorSplat_Command | kConstructorStruct_Command | kContinue_Command
  | kDefaultLayout_Command | kDefaultModifiers_Command | kDiscard_Command | kDo_Command
  | kElements_Command | kElementsComplete_Command | kExpressionStatement_Command
  | kField_Command | kFieldAccess_Command | kFloatLiteral_Command | kFor_Command
  | kFunctionCall_Command | kFunctionDeclaration_Command | kFunctionDefinition_Command
  | kFunctionPrototype_Command | kGlobalVar_Command | kIf_Command | kIndex_Command
  | kInterfaceBlock_Command | kIntLiteral_Command | kLayout_Command | kModifiers8Bit_Command
  | kModifiers_Command | kNop_Command | kPostfix_Command | kPrefix_Command
  | kProgram_Command | kReturn_Command | kSetting_Command | kSharedFunction_Command
  | kStructDefinition_Command | kStructType_Command | kSwitch_Command | kSwizzle_Command
  | kSymbolRef_Command | kSymbolTable_Command | kTernary_Command | kVariable_Command
  | kVariableReference_Command | kVarDeclaration_Command | kVoid_Command

datatype Layout =
    Layout_default
  | Layout_builtin int
  | Layout int int int int int int int int

datatype Modifiers =
    Modifiers_default
  | Modifiers Layout int

text \<open>
  Symbols are heap objects; a \<^verbatim>\<open>Symbol*\<close> is an address (or \<open>None\<close> for \<^verbatim>\<open>nullptr\<close>).
  Each constructor records the arguments the source passes to the corresponding constructor
  or factory.
\<close>

type_synonym symptr = "nat option"

datatype Symbol =
    Type_Builtin string
  | Type_Array string symptr int
  | Type_Struct string "(Modifiers \<times> string \<times> symptr) list" bool
  | Variable Modifiers string symptr bool byte
  | FunctionDeclaration Modifiers string "symptr list" symptr bool
  | Field symptr byte

fun isType :: "Symbol \<Rightarrow> bool" where
  "isType (Type_Builtin _) = True"
| "isType (Type_Array _ _ _) = True"
| "isType (Type_Struct _ _ _) = True"
| "isType _ = False"

fun isVariable :: "Symbol \<Rightarrow> bool" where
  "isVariable (Variable _ _ _ _ _) = True"
| "isVariable _ = False"

fun isFunctionDeclaration :: "Symbol \<Rightarrow> bool" where
  "isFunctionDeclaration (FunctionDeclaration _ _ _ _ _) = True"
| "isFunctionDeclaration _ = False"

text \<open>
  The syntax tree. A \<^verbatim>\<open>std::unique_ptr\<close> to a node may be null (the \<^verbatim>\<open>kVoid_Command\<close>
  tag decodes to \<^verbatim>\<open>nullptr\<close>), so children are optional. The factories \<^verbatim>\<open>T::Make\<close> and
  \<^verbatim>\<open>T::Convert\<close> live outside this file; a node records the factory and the arguments the
  decoder passes to it. A float is its IEEE-754 binary32 object representation, and
  \<^verbatim>\<open>SKSL_INT\<close> values are integers.
\<close>

datatype Expression =
    BinaryExpression "Expression option" byte "Expression option"
  | BoolLiteral bool
  | ConstructorArray symptr "Expression option list"
  | ConstructorArrayCast symptr "Expression option"
  | ConstructorCompound symptr "Expression option list"
  | ConstructorDiagonalMatrix symptr "Expression option"
  | ConstructorMatrixResize symptr "Expression option"
  | ConstructorScalarCast symptr "Expression option"
  | ConstructorSplat symptr "Expression option"
  | ConstructorStruct symptr "Expression option list"
  | ConstructorCompoundCast symptr "Expression option"
  | FieldAccess "Expression option" int byte
  | FloatLiteral "32 word" symptr
  | FunctionCall symptr symptr "Expression option list"
  | IndexExpression "Expression option" "Expression option"
  | IntLiteral int symptr
  | PostfixExpression "Expression option" byte
  | PrefixExpression byte "Expression option"
  | Setting string
  | Swizzle "Expression option" "byte list"
  | TernaryExpression "Expression option" "Expression option" "Expression option"
  | VariableReference symptr byte

datatype Statement =
    Block "Statement option list" byte "nat option"
  | BreakStatement
  | ContinueStatement
  | DiscardStatement
  | DoStatement "Statement option" "Expression option"
  | ExpressionStatement "Expression option"
  | ForStatement "Statement option" "Expression option" "Expression option"
      "Statement option" "nat option"
  | IfStatement bool "Expression option" "Statement option" "Statement option"
  | Nop
  | ReturnStatement "Expression option"
  | SwitchCase_Default "Statement option"
  | SwitchCase int "Statement option"
  | SwitchStatement bool "Expression option" "Statement list" "nat option"
  | VarDeclaration symptr symptr int "Expression option"

datatype ProgramElement =
    FunctionDefinition symptr "Statement option" bool
  | FunctionPrototype symptr bool
  | GlobalVarDeclaration "Statement option"
  | InterfaceBlock symptr string string int
  | StructDefinition symptr

fun isFunctionDefinition :: "ProgramElement \<Rightarrow> bool" where
  "isFunctionDefinition (FunctionDefinition _ _ _) = True"
| "isFunctionDefinition _ = False"

subsection \<open>Symbol tables\<close>

text \<open>
  Modelled from the spec: the class \<^verbatim>\<open>SymbolTable\<close> (src/sksl/ir/SkSLSymbolTable.h is not
  part of the sources). A scope is a node in a parent-linked chain holding an owned set, in
  creation order, and an ordered list of visible (name, symbol) bindings.
\<close>

record symtab =
  fParent :: "nat option"
  fBuiltin :: bool
  fOwnedSymbols :: "nat list"
  fBindings :: "(string \<times> nat) list"

text \<open>Modelled from the spec: \<^verbatim>\<open>SymbolTable::operator[]\<close> on a table; the latest binding of
  a name wins.\<close>

definition lookup :: "symtab \<Rightarrow> string \<Rightarrow> symptr" where
  "lookup t name = map_of (rev (fBindings t)) name"

subsection \<open>Decoder state and results\<close>

datatype error =
    AssertFailed
  | Underrun
  | NullDeref
  | OutOfBounds
  | Diverges
  | OutOfFuel

text \<open>
  The errors: a failed assertion, a read past the end of the buffer, a read through a null
  or dangling pointer, an index outside a vector, a loop of the source that never ends, and
  \<open>OutOfFuel\<close>, which belongs to the model alone: the decoders below carry a bound on
  the depth of their calls and report \<open>OutOfFuel\<close> when it is used up.
\<close>

text \<open>
  \<open>fSrc\<close> is the buffer (\<^verbatim>\<open>fEnd\<close> is its length), \<open>fIP\<close> the cursor as an offset into
  it. \<open>tables\<close>, \<open>symbols\<close> and \<open>pools\<close> are the heaps of symbol tables, symbols and
  modifier pools. \<open>ctx_fConfig\<close> and \<open>ctx_fModifiersPool\<close> are the two ambient fields of
  the compiler's \<^verbatim>\<open>Context\<close>; \<open>memoryPool\<close> is the thread-local \<^verbatim>\<open>ThreadContext::MemoryPool()\<close>
  (the flag tells whether the pool is attached to the thread). \<open>definitions\<close> records
  the calls of \<^verbatim>\<open>FunctionDeclaration::setDefinition\<close>: the declaration's address and
  the definition it now points to.
\<close>

record progconfig =
  fKind :: byte
  fRequiredSkSLVersion :: byte
  fMaxVersionAllowed :: nat

record rstate =
  fSrc :: "byte list"
  fIP :: nat
  fStringStart :: nat
  fSymbolTable :: "nat option"
  fSymbols :: "symptr list"
  tables :: "symtab list"
  symbols :: "Symbol list"
  pools :: "Modifiers list list"
  ctx_fConfig :: "progconfig option"
  ctx_fModifiersPool :: "nat option"
  definitions :: "(nat \<times> ProgramElement) list"
  memoryPool :: "bool option"

text \<open>
  The build and header parameters of the decoder:
  \<^item> \<open>SK_DEBUG\<close>: whether the file is compiled with \<^verbatim>\<open>SK_DEBUG\<close>. The source guards the
    destructor's end-of-buffer check with \<^verbatim>\<open>#ifdef SK_DEBUG\<close> and wraps variables that only
    assertions read in \<^verbatim>\<open>SkDEBUGCODE\<close>: assertions exist in debug builds only.
  \<^item> \<open>kVersion\<close>, \<open>kBuiltin_Symbol\<close>: constants of the header.
  \<^item> \<open>commandOf\<close>: the enumeration constant a tag byte denotes, if any.
  \<^item> \<open>getArrayName\<close>, \<open>fieldName\<close>, \<open>isUnsigned\<close>: \<^verbatim>\<open>Type::getArrayName\<close>, the name a
    \<^verbatim>\<open>Field\<close> symbol computes for itself, and \<^verbatim>\<open>Type::isUnsigned\<close>, all of the type system
    outside this file.
  \<^item> \<open>findBestFunctionForCall\<close>: \<^verbatim>\<open>FunctionCall::FindBestFunctionForCall\<close>.
  \<^item> \<open>moduleForProgramKind\<close>: the address of the symbol table of the module that
    \<^verbatim>\<open>Compiler::moduleForProgramKind\<close> returns for a program kind.
  \<^item> \<open>dsl_Start\<close>, \<open>dsl_End\<close>: the effect of \<^verbatim>\<open>dsl::Start\<close> (given the program kind)
    and of \<^verbatim>\<open>dsl::End\<close> on the state.
\<close>

record config =
  SK_DEBUG :: bool
  kVersion :: "16 word"
  kBuiltin_Symbol :: "16 word"
  commandOf :: "byte \<Rightarrow> command option"
  getArrayName :: "Symbol \<Rightarrow> int \<Rightarrow> string"
  fieldName :: "Symbol list \<Rightarrow> symptr \<Rightarrow> byte \<Rightarrow> string"
  isUnsigned :: "Symbol \<Rightarrow> bool"
  findBestFunctionForCall :: "Symbol list \<Rightarrow> symptr \<Rightarrow> Expression option list \<Rightarrow> symptr"
  moduleForProgramKind :: "byte \<Rightarrow> nat option"
  dsl_Start :: "byte \<Rightarrow> rstate \<Rightarrow> rstate"
  dsl_End :: "rstate \<Rightarrow> rstate"

fun symbol_name :: "config \<Rightarrow> Symbol list \<Rightarrow> Symbol \<Rightarrow> string" where
  "symbol_name cfg h (Type_Builtin n) = n"
| "symbol_name cfg h (Type_Array n _ _) = n"
| "symbol_name cfg h (Type_Struct n _ _) = n"
| "symbol_name cfg h (Variable _ n _ _ _) = n"
| "symbol_name cfg h (FunctionDeclaration _ n _ _ _) = n"
| "symbol_name cfg h (Field owner i) = fieldName cfg h owner i"

type_synonym 'a dec = "rstate \<Rightarrow> error + ('a \<times> rstate)"

definition return :: "'a \<Rightarrow> 'a dec" where
  "return x s = Inr (x, s)"

definition fail :: "error \<Rightarrow> 'a dec" where
  "fail e s = Inl e"

definition bind :: "'a dec \<Rightarrow> ('a \<Rightarrow> 'b dec) \<Rightarrow> 'b dec" where
  "bind m f s = (case m s of Inl e \<Rightarrow> Inl e | Inr (x, s') \<Rightarrow> f x s')"

definition gets :: "(rstate \<Rightarrow> 'a) \<Rightarrow> 'a dec" where
  "gets f s = Inr (f s, s)"

definition modify :: "(rstate \<Rightarrow> rstate) \<Rightarrow> unit dec" where
  "modify f s = Inr ((), f s)"

text \<open>\<^verbatim>\<open>SkASSERT(c)\<close>: fatal when the condition fails in a debug build, absent otherwise.\<close>

definition SkASSERT :: "config \<Rightarrow> bool \<Rightarrow> unit dec" where
  "SkASSERT cfg c = (if SK_DEBUG cfg \<and> \<not> c then fail AssertFailed else return ())"

text \<open>A counted \<^verbatim>\<open>for\<close> loop that pushes each result on a vector.\<close>

primrec repeat :: "nat \<Rightarrow> 'a dec \<Rightarrow> 'a list dec" where
  "repeat 0 m = return []"
| "repeat (Suc k) m = bind m (\<lambda>x. bind (repeat k m) (\<lambda>xs. return (x # xs)))"

subsection \<open>The primitive reader\<close>

text \<open>
  Modelled from the spec: the readers \<^verbatim>\<open>readU8\<close> .. \<^verbatim>\<open>readS32\<close> and \<^verbatim>\<open>readString\<close> of
  the header (section 4.1). Fixed-width integers are read at the cursor, which advances by
  their width; reading past the end of the buffer is fatal. Multi-byte values are taken in
  little-endian order. The signed and the unsigned reader of one width return the same bits;
  the conversion to a wider integer is written where the value is used (\<open>uint\<close> for an
  unsigned, \<open>sint\<close> for a signed source type).
\<close>

definition readU8 :: "byte dec" where
  "readU8 s = (if fIP s < length (fSrc s)
               then Inr (fSrc s ! fIP s, s\<lparr>fIP := fIP s + 1\<rparr>)
               else Inl Underrun)"

definition readU16 :: "16 word dec" where
  "readU16 s = (if fIP s + 1 < length (fSrc s)
                then Inr (word_cat (fSrc s ! (fIP s + 1)) (fSrc s ! fIP s), s\<lparr>fIP := fIP s + 2\<rparr>)
                else Inl Underrun)"

definition readU32 :: "32 word dec" where
  "readU32 s = (if fIP s + 3 < length (fSrc s)
                then Inr (word_cat (word_cat (fSrc s ! (fIP s + 3)) (fSrc s ! (fIP s + 2)) :: 16 word)
                                   (word_cat (fSrc s ! (fIP s + 1)) (fSrc s ! fIP s) :: 16 word),
                          s\<lparr>fIP := fIP s + 4\<rparr>)
                else Inl Underrun)"

definition readS8 :: "byte dec" where
  "readS8 = readU8"

definition readS16 :: "16 word dec" where
  "readS16 = readU16"

definition readS32 :: "32 word dec" where
  "readS32 = readU32"

text \<open>
  Modelled from the spec: \<^verbatim>\<open>readString\<close>. The addressing of the string blob is
  encoder-defined; here a 16-bit token is the offset, from \<open>fStringStart\<close>, of a length
  byte followed by that many characters.
\<close>

definition readString :: "string dec" where
  "readString = bind readU16 (\<lambda>offset s.
     let a = fStringStart s + unat offset in
     if a < length (fSrc s) \<and> a + unat (fSrc s ! a) < length (fSrc s)
     then Inr (map (\<lambda>b. char_of (unat b)) (take (unat (fSrc s ! a)) (drop (a + 1) (fSrc s))), s)
     else Inl Underrun)"

subsection \<open>Heap operations of the symbol table and the header's helpers\<close>

definition derefSymbol :: "symptr \<Rightarrow> Symbol dec" where
  "derefSymbol p s = (case p of None \<Rightarrow> Inl NullDeref
                      | Some a \<Rightarrow> if a < length (symbols s) then Inr (symbols s ! a, s)
                                  else Inl NullDeref)"

definition currentTable :: "(nat \<times> symtab) dec" where
  "currentTable s = (case fSymbolTable s of None \<Rightarrow> Inl NullDeref
                     | Some t \<Rightarrow> if t < length (tables s) then Inr ((t, tables s ! t), s)
                                 else Inl NullDeref)"

definition isBuiltin :: "bool dec" where
  "isBuiltin = bind currentTable (\<lambda>(t, tab). return (fBuiltin tab))"

text \<open>Modelled from the spec: \<^verbatim>\<open>SymbolTable::takeOwnershipOfSymbol\<close>: the storage of the
  new symbol belongs to the current scope; the symbol is not name-visible.\<close>

definition takeOwnershipOfSymbol :: "Symbol \<Rightarrow> symptr dec" where
  "takeOwnershipOfSymbol newSymbol = bind currentTable (\<lambda>(t, tab) s.
     let a = length (symbols s) in
     Inr (Some a, s\<lparr>symbols := symbols s @ [newSymbol],
                     tables := (tables s)[t := tab\<lparr>fOwnedSymbols := fOwnedSymbols tab @ [a]\<rparr>]\<rparr>))"

text \<open>Modelled from the spec: \<^verbatim>\<open>SymbolTable::addWithoutOwnership\<close>: binds the symbol under
  its name in the current scope's name table and leaves the owned set alone.\<close>

definition addWithoutOwnership :: "config \<Rightarrow> symptr \<Rightarrow> unit dec" where
  "addWithoutOwnership cfg p = bind (derefSymbol p) (\<lambda>sym. bind currentTable (\<lambda>(t, tab) s.
     Inr ((), s\<lparr>tables := (tables s)[t := tab\<lparr>fBindings :=
                  fBindings tab @ [(symbol_name cfg (symbols s) sym, the p)]\<rparr>]\<rparr>)))"

text \<open>
  \<^verbatim>\<open>while (root->fParent) root = root->fParent.get();\<close> The walk is bounded by the number
  of tables: a longer walk is inside a cycle, where the loop never ends (\<open>Diverges\<close>).
\<close>

fun rootOf :: "nat \<Rightarrow> symtab list \<Rightarrow> nat \<Rightarrow> error + nat" where
  "rootOf 0 ts a = Inl Diverges"
| "rootOf (Suc k) ts a =
     (if a < length ts
      then (case fParent (ts ! a) of None \<Rightarrow> Inr a | Some p \<Rightarrow> rootOf k ts p)
      else Inl NullDeref)"

definition lookupInRoot :: "string \<Rightarrow> symptr dec" where
  "lookupInRoot name s =
     (case fSymbolTable s of None \<Rightarrow> Inl NullDeref
      | Some t \<Rightarrow> (case rootOf (length (tables s)) (tables s) t of Inl e \<Rightarrow> Inl e
                   | Inr r \<Rightarrow> Inr (lookup (tables s ! r) name, s)))"

text \<open>Modelled from the spec: \<^verbatim>\<open>Rehydrator::addSymbol\<close> registers a symbol under its id in
  the session's table of materialized symbols.\<close>

definition addSymbol :: "16 word \<Rightarrow> symptr \<Rightarrow> unit dec" where
  "addSymbol ident p = modify (\<lambda>s.
     s\<lparr>fSymbols := (fSymbols s @ replicate (Suc (unat ident) - length (fSymbols s)) None)
                      [unat ident := p]\<rparr>)"

text \<open>Modelled from the spec: \<^verbatim>\<open>Rehydrator::symbolRef\<close> reads an id that must already be
  registered.\<close>

definition symbolRef :: "config \<Rightarrow> symptr dec" where
  "symbolRef cfg = bind readU16 (\<lambda>ident. bind (gets fSymbols) (\<lambda>tbl.
     bind (SkASSERT cfg (unat ident < length tbl)) (\<lambda>_.
     if unat ident < length tbl then return (tbl ! unat ident) else fail OutOfBounds)))"

text \<open>Modelled from the spec: \<^verbatim>\<open>Rehydrator::possiblyBuiltinSymbolRef\<close> (section 4.2): a
  sentinel token is followed by a name that is looked up in the outermost ancestor scope and
  must be found; any other token is a session-local id.\<close>

definition possiblyBuiltinSymbolRef :: "config \<Rightarrow> symptr dec" where
  "possiblyBuiltinSymbolRef cfg = bind readU16 (\<lambda>ident.
     if ident = kBuiltin_Symbol cfg
     then bind readString (\<lambda>name. bind (lookupInRoot name) (\<lambda>result.
          bind (SkASSERT cfg (result \<noteq> None)) (\<lambda>_. return result)))
     else bind (gets fSymbols) (\<lambda>tbl.
          bind (SkASSERT cfg (unat ident < length tbl)) (\<lambda>_.
          if unat ident < length tbl then return (tbl ! unat ident) else fail OutOfBounds)))"

text \<open>Modelled from the spec: \<^verbatim>\<open>Rehydrator::modifiersPool().add\<close>: the ambient modifiers
  pool stores the modifiers; the pooled value is returned.\<close>

definition modifiersPool_add :: "Modifiers \<Rightarrow> Modifiers dec" where
  "modifiersPool_add m s =
     (case ctx_fModifiersPool s of None \<Rightarrow> Inl NullDeref
      | Some p \<Rightarrow> if p < length (pools s)
                  then Inr (m, s\<lparr>pools := (pools s)[p := pools s ! p @ [m]]\<rparr>)
                  else Inl NullDeref)"

subsection \<open>Layout and Modifiers\<close>

definition layout :: "config \<Rightarrow> Layout dec" where
  "layout cfg = bind readU8 (\<lambda>kind.
     if commandOf cfg kind = Some kBuiltinLayout_Command then
       bind readS16 (\<lambda>b. return (Layout_builtin (sint b)))
     else if commandOf cfg kind = Some kDefaultLayout_Command then
       return Layout_default
     else if commandOf cfg kind = Some kLayout_Command then
       bind readU32 (\<lambda>flags. bind readS8 (\<lambda>location. bind readS16 (\<lambda>offset.
       bind readS16 (\<lambda>binding. bind readS8 (\<lambda>index. bind readS8 (\<lambda>set.
       bind readS16 (\<lambda>builtin. bind readS8 (\<lambda>inputAttachmentIndex.
       return (Layout (sint flags) (sint location) (sint offset) (sint binding) (sint index)
                      (sint set) (sint builtin) (sint inputAttachmentIndex))))))))))
     else
       bind (SkASSERT cfg False) (\<lambda>_. return Layout_default))"

definition modifiers :: "config \<Rightarrow> Modifiers dec" where
  "modifiers cfg = bind readU8 (\<lambda>kind.
     if commandOf cfg kind = Some kDefaultModifiers_Command then
       return Modifiers_default
     else if commandOf cfg kind = Some kModifiers8Bit_Command then
       bind (layout cfg) (\<lambda>l. bind readU8 (\<lambda>flags. return (Modifiers l (uint flags))))
     else if commandOf cfg kind = Some kModifiers_Command then
       bind (layout cfg) (\<lambda>l. bind readS32 (\<lambda>flags. return (Modifiers l (sint flags))))
     else
       bind (SkASSERT cfg False) (\<lambda>_. return Modifiers_default))"

subsection \<open>Symbols and types\<close>

text \<open>
  \<open>symbol\<close> and \<open>type\<close> call each other. The first argument bounds the depth of the
  calls; a decode that needs more reports \<open>OutOfFuel\<close>. The pointer casts
  \<^verbatim>\<open>as<T>()\<close> are the identity on addresses.
\<close>

fun symbol :: "config \<Rightarrow> nat \<Rightarrow> symptr dec"
  and type :: "config \<Rightarrow> nat \<Rightarrow> symptr dec" where
  "symbol cfg 0 = fail OutOfFuel"
| "symbol cfg (Suc n) = bind readU8 (\<lambda>kind.
     if commandOf cfg kind = Some kArrayType_Command then
       bind readU16 (\<lambda>ident. bind (type cfg n) (\<lambda>componentType. bind readS8 (\<lambda>count.
       bind (derefSymbol componentType) (\<lambda>comp.
       bind (takeOwnershipOfSymbol
               (Type_Array (getArrayName cfg comp (sint count)) componentType (sint count)))
         (\<lambda>result. bind (addSymbol ident result) (\<lambda>_. return result))))))
     else if commandOf cfg kind = Some kFunctionDeclaration_Command then
       bind readU16 (\<lambda>ident. bind (modifiers cfg) (\<lambda>mods. bind readString (\<lambda>name.
       bind readU8 (\<lambda>parameterCount.
       bind (repeat (unat parameterCount) (symbol cfg n)) (\<lambda>parameters.
       bind (type cfg n) (\<lambda>returnType.
       bind (modifiersPool_add mods) (\<lambda>m. bind isBuiltin (\<lambda>builtin.
       bind (takeOwnershipOfSymbol (FunctionDeclaration m name parameters returnType builtin))
         (\<lambda>sym. bind (addSymbol ident sym) (\<lambda>_. return sym))))))))))
     else if commandOf cfg kind = Some kField_Command then
       bind (symbolRef cfg) (\<lambda>owner. bind readU8 (\<lambda>index.
       takeOwnershipOfSymbol (Field owner index)))
     else if commandOf cfg kind = Some kStructType_Command then
       bind readU16 (\<lambda>ident. bind readString (\<lambda>name. bind readU8 (\<lambda>fieldCount.
       bind (repeat (unat fieldCount)
               (bind (modifiers cfg) (\<lambda>m. bind readString (\<lambda>fieldName.
                bind (type cfg n) (\<lambda>ty. return (m, fieldName, ty))))))
         (\<lambda>fields. bind readU8 (\<lambda>interfaceBlock.
       bind (takeOwnershipOfSymbol (Type_Struct name fields (interfaceBlock \<noteq> 0)))
         (\<lambda>result. bind (addSymbol ident result) (\<lambda>_. return result)))))))
     else if commandOf cfg kind = Some kSymbolRef_Command then
       possiblyBuiltinSymbolRef cfg
     else if commandOf cfg kind = Some kVariable_Command then
       bind readU16 (\<lambda>ident. bind (modifiers cfg) (\<lambda>mods. bind (modifiersPool_add mods) (\<lambda>m.
       bind readString (\<lambda>name. bind (type cfg n) (\<lambda>ty. bind readU8 (\<lambda>storage.
       bind isBuiltin (\<lambda>builtin.
       bind (takeOwnershipOfSymbol (Variable m name ty builtin storage))
         (\<lambda>result. bind (addSymbol ident result) (\<lambda>_. return result)))))))))
     else
       bind (SkASSERT cfg False) (\<lambda>_. return None))"
| "type cfg n = bind (symbol cfg n) (\<lambda>result.
     if SK_DEBUG cfg
     then bind (derefSymbol result) (\<lambda>sym. bind (SkASSERT cfg (isType sym)) (\<lambda>_. return result))
     else return result)"

subsection \<open>Symbol tables\<close>

text \<open>A counted \<^verbatim>\<open>for\<close> loop run for its effects.\<close>

primrec forN :: "nat \<Rightarrow> unit dec \<Rightarrow> unit dec" where
  "forN 0 m = return ()"
| "forN (Suc k) m = bind m (\<lambda>_. forN k m)"

text \<open>\<^verbatim>\<open>std::make_shared<SymbolTable>(std::move(fSymbolTable), builtin)\<close>, assigned to
  \<open>fSymbolTable\<close>.\<close>

definition pushSymbolTable :: "bool \<Rightarrow> unit dec" where
  "pushSymbolTable builtin = modify (\<lambda>s.
     s\<lparr>tables := tables s @ [\<lparr>fParent = fSymbolTable s, fBuiltin = builtin,
                               fOwnedSymbols = [], fBindings = []\<rparr>],
       fSymbolTable := Some (length (tables s))\<rparr>)"

text \<open>One pass of the loop over the visible entries (lines 640 to 654). Indexing the vector
  \<open>ownedSymbols\<close> beyond its size has no defined behaviour; the model reports
  \<open>OutOfBounds\<close> there.\<close>

definition visibleEntry :: "config \<Rightarrow> symptr list \<Rightarrow> unit dec" where
  "visibleEntry cfg ownedSymbols = bind readU16 (\<lambda>index.
     if index \<noteq> kBuiltin_Symbol cfg then
       (if unat index < length ownedSymbols
        then addWithoutOwnership cfg (ownedSymbols ! unat index)
        else fail OutOfBounds)
     else
       bind readString (\<lambda>name. bind (lookupInRoot name) (\<lambda>s.
       bind (SkASSERT cfg (s \<noteq> None)) (\<lambda>_. addWithoutOwnership cfg s))))"

definition symbolTable :: "config \<Rightarrow> nat \<Rightarrow> (nat option) dec" where
  "symbolTable cfg n = bind readU8 (\<lambda>command.
     if commandOf cfg command = Some kVoid_Command then return None
     else
       bind (SkASSERT cfg (commandOf cfg command = Some kSymbolTable_Command)) (\<lambda>_.
       bind readU8 (\<lambda>builtin. bind readU16 (\<lambda>ownedCount.
       bind (pushSymbolTable (builtin \<noteq> 0)) (\<lambda>_.
       bind (repeat (unat ownedCount) (symbol cfg n)) (\<lambda>ownedSymbols.
       bind readU16 (\<lambda>symbolCount.
       bind (forN (unat symbolCount) (visibleEntry cfg ownedSymbols)) (\<lambda>_.
       gets fSymbolTable))))))))"

subsection \<open>The scope guard\<close>

text \<open>
  \<^verbatim>\<open>AutoRehydratorSymbolTable\<close>: the constructor saves the current symbol table, decodes a
  symbol table and installs it when there is one; the destructor puts the saved table back.
  The guarded body runs between the two; the value the body returns is computed before the
  destructor runs.
\<close>

definition AutoRehydratorSymbolTable_ctor :: "config \<Rightarrow> nat \<Rightarrow> (nat option) dec" where
  "AutoRehydratorSymbolTable_ctor cfg n =
     bind (gets fSymbolTable) (\<lambda>fOldSymbols.
     bind (symbolTable cfg n) (\<lambda>symbols.
     bind (if symbols \<noteq> None then modify (\<lambda>s. s\<lparr>fSymbolTable := symbols\<rparr>) else return ())
       (\<lambda>_. return fOldSymbols)))"

definition AutoRehydratorSymbolTable_dtor :: "nat option \<Rightarrow> unit dec" where
  "AutoRehydratorSymbolTable_dtor fOldSymbols = modify (\<lambda>s. s\<lparr>fSymbolTable := fOldSymbols\<rparr>)"

definition AutoRehydratorSymbolTable :: "config \<Rightarrow> nat \<Rightarrow> 'a dec \<Rightarrow> 'a dec" where
  "AutoRehydratorSymbolTable cfg n body =
     bind (AutoRehydratorSymbolTable_ctor cfg n) (\<lambda>fOldSymbols.
     bind body (\<lambda>result.
     bind (AutoRehydratorSymbolTable_dtor fOldSymbols) (\<lambda>_. return result)))"

subsection \<open>Statements and expressions\<close>

text \<open>The six constructors that take exactly one argument share their shape: a type, an
  expression array, the assertion on its size, and \<^verbatim>\<open>args[0]\<close>.\<close>

definition singleArgument :: "config \<Rightarrow> Expression option list \<Rightarrow> (Expression option) dec" where
  "singleArgument cfg args =
     bind (SkASSERT cfg (length args = 1)) (\<lambda>_.
     if 0 < length args then return (args ! 0) else fail OutOfBounds)"

fun statement :: "config \<Rightarrow> nat \<Rightarrow> (Statement option) dec"
  and expressionArray :: "config \<Rightarrow> nat \<Rightarrow> (Expression option list) dec"
  and expression :: "config \<Rightarrow> nat \<Rightarrow> (Expression option) dec" where
  "statement cfg 0 = fail OutOfFuel"
| "statement cfg (Suc n) = bind readU8 (\<lambda>kind.
     if commandOf cfg kind = Some kBlock_Command then
       AutoRehydratorSymbolTable cfg n
         (bind readU8 (\<lambda>count. bind (repeat (unat count) (statement cfg n)) (\<lambda>statements.
          bind readU8 (\<lambda>blockKind. bind (gets fSymbolTable) (\<lambda>symbols.
          return (Some (Block statements blockKind symbols)))))))
     else if commandOf cfg kind = Some kBreak_Command then return (Some BreakStatement)
     else if commandOf cfg kind = Some kContinue_Command then return (Some ContinueStatement)
     else if commandOf cfg kind = Some kDiscard_Command then return (Some DiscardStatement)
     else if commandOf cfg kind = Some kDo_Command then
       bind (statement cfg n) (\<lambda>stmt. bind (expression cfg n) (\<lambda>expr.
       return (Some (DoStatement stmt expr))))
     else if commandOf cfg kind = Some kExpressionStatement_Command then
       bind (expression cfg n) (\<lambda>expr. return (Some (ExpressionStatement expr)))
     else if commandOf cfg kind = Some kFor_Command then
       AutoRehydratorSymbolTable cfg n
         (bind (statement cfg n) (\<lambda>initializer. bind (expression cfg n) (\<lambda>test.
          bind (expression cfg n) (\<lambda>next. bind (statement cfg n) (\<lambda>body.
          bind (gets fSymbolTable) (\<lambda>symbols.
          return (Some (ForStatement initializer test next body symbols))))))))
     else if commandOf cfg kind = Some kIf_Command then
       bind readU8 (\<lambda>isStatic. bind (expression cfg n) (\<lambda>test.
       bind (statement cfg n) (\<lambda>ifTrue. bind (statement cfg n) (\<lambda>ifFalse.
       return (Some (IfStatement (isStatic \<noteq> 0) test ifTrue ifFalse))))))
     else if commandOf cfg kind = Some kNop_Command then return (Some Nop)
     else if commandOf cfg kind = Some kReturn_Command then
       bind (expression cfg n) (\<lambda>expr. return (Some (ReturnStatement expr)))
     else if commandOf cfg kind = Some kSwitch_Command then
       bind readU8 (\<lambda>isStatic.
       AutoRehydratorSymbolTable cfg n
         (bind (expression cfg n) (\<lambda>expr. bind readU8 (\<lambda>caseCount.
          bind (repeat (unat caseCount)
                  (bind readU8 (\<lambda>isDefault.
                   if isDefault \<noteq> 0 then
                     bind (statement cfg n) (\<lambda>st. return (SwitchCase_Default st))
                   else
                     bind readS32 (\<lambda>v. bind (statement cfg n) (\<lambda>st.
                     return (SwitchCase (sint v) st))))))
            (\<lambda>cases. bind (gets fSymbolTable) (\<lambda>symbols.
          return (Some (SwitchStatement (isStatic \<noteq> 0) expr cases symbols))))))))
     else if commandOf cfg kind = Some kVarDeclaration_Command then
       bind (symbolRef cfg) (\<lambda>var. bind (type cfg n) (\<lambda>baseType. bind readU8 (\<lambda>arraySize.
       bind (expression cfg n) (\<lambda>v.
       return (Some (VarDeclaration var baseType (uint arraySize) v))))))
     else if commandOf cfg kind = Some kVoid_Command then return None
     else
       bind (SkASSERT cfg False) (\<lambda>_. return None))"
| "expressionArray cfg n =
     bind readU8 (\<lambda>count. repeat (unat count) (expression cfg n))"
| "expression cfg 0 = fail OutOfFuel"
| "expression cfg (Suc n) = bind readU8 (\<lambda>kind.
     if commandOf cfg kind = Some kBinary_Command then
       bind (expression cfg n) (\<lambda>left. bind readU8 (\<lambda>op. bind (expression cfg n) (\<lambda>right.
       return (Some (BinaryExpression left op right)))))
     else if commandOf cfg kind = Some kBoolLiteral_Command then
       bind readU8 (\<lambda>v. return (Some (BoolLiteral (v \<noteq> 0))))
     else if commandOf cfg kind = Some kConstructorArray_Command then
       bind (type cfg n) (\<lambda>ty. bind (expressionArray cfg n) (\<lambda>args.
       return (Some (ConstructorArray ty args))))
     else if commandOf cfg kind = Some kConstructorArrayCast_Command then
       bind (type cfg n) (\<lambda>ty. bind (expressionArray cfg n) (\<lambda>args.
       bind (singleArgument cfg args) (\<lambda>arg. return (Some (ConstructorArrayCast ty arg)))))
     else if commandOf cfg kind = Some kConstructorCompound_Command then
       bind (type cfg n) (\<lambda>ty. bind (expressionArray cfg n) (\<lambda>args.
       return (Some (ConstructorCompound ty args))))
     else if commandOf cfg kind = Some kConstructorDiagonalMatrix_Command then
       bind (type cfg n) (\<lambda>ty. bind (expressionArray cfg n) (\<lambda>args.
       bind (singleArgument cfg args) (\<lambda>arg. return (Some (ConstructorDiagonalMatrix ty arg)))))
     else if commandOf cfg kind = Some kConstructorMatrixResize_Command then
       bind (type cfg n) (\<lambda>ty. bind (expressionArray cfg n) (\<lambda>args.
       bind (singleArgument cfg args) (\<lambda>arg. return (Some (ConstructorMatrixResize ty arg)))))
     else if commandOf cfg kind = Some kConstructorScalarCast_Command then
       bind (type cfg n) (\<lambda>ty. bind (expressionArray cfg n) (\<lambda>args.
       bind (singleArgument cfg args) (\<lambda>arg. return (Some (ConstructorScalarCast ty arg)))))
     else if commandOf cfg kind = Some kConstructorSplat_Command then
       bind (type cfg n) (\<lambda>ty. bind (expressionArray cfg n) (\<lambda>args.
       bind (singleArgument cfg args) (\<lambda>arg. return (Some (ConstructorSplat ty arg)))))
     else if commandOf cfg kind = Some kConstructorStruct_Command then
       bind (type cfg n) (\<lambda>ty. bind (expressionArray cfg n) (\<lambda>args.
       return (Some (ConstructorStruct ty args))))
     else if commandOf cfg kind = Some kConstructorCompoundCast_Command then
       bind (type cfg n) (\<lambda>ty. bind (expressionArray cfg n) (\<lambda>args.
       bind (singleArgument cfg args) (\<lambda>arg. return (Some (ConstructorCompoundCast ty arg)))))
     else if commandOf cfg kind = Some kFieldAccess_Command then
       bind (expression cfg n) (\<lambda>base. bind readU8 (\<lambda>index. bind readU8 (\<lambda>ownerKind.
       return (Some (FieldAccess base (uint index) ownerKind)))))
     else if commandOf cfg kind = Some kFloatLiteral_Command then
       bind (type cfg n) (\<lambda>ty. bind readS32 (\<lambda>floatBits.
       return (Some (FloatLiteral floatBits ty))))
     else if commandOf cfg kind = Some kFunctionCall_Command then
       bind (type cfg n) (\<lambda>ty. bind (possiblyBuiltinSymbolRef cfg) (\<lambda>f.
       bind (expressionArray cfg n) (\<lambda>args. bind (gets symbols) (\<lambda>h.
       return (Some (FunctionCall ty (findBestFunctionForCall cfg h f args) args))))))
     else if commandOf cfg kind = Some kIndex_Command then
       bind (expression cfg n) (\<lambda>base. bind (expression cfg n) (\<lambda>index.
       return (Some (IndexExpression base index))))
     else if commandOf cfg kind = Some kIntLiteral_Command then
       bind (type cfg n) (\<lambda>ty. bind (derefSymbol ty) (\<lambda>tyv.
       if isUnsigned cfg tyv then
         bind readU32 (\<lambda>v. return (Some (IntLiteral (uint v) ty)))
       else
         bind readS32 (\<lambda>v. return (Some (IntLiteral (sint v) ty)))))
     else if commandOf cfg kind = Some kPostfix_Command then
       bind readU8 (\<lambda>op. bind (expression cfg n) (\<lambda>operand.
       return (Some (PostfixExpression operand op))))
     else if commandOf cfg kind = Some kPrefix_Command then
       bind readU8 (\<lambda>op. bind (expression cfg n) (\<lambda>operand.
       return (Some (PrefixExpression op operand))))
     else if commandOf cfg kind = Some kSetting_Command then
       bind readString (\<lambda>name. return (Some (Setting name)))
     else if commandOf cfg kind = Some kSwizzle_Command then
       bind (expression cfg n) (\<lambda>base. bind readU8 (\<lambda>count.
       bind (repeat (unat count) readU8) (\<lambda>components.
       return (Some (Swizzle base components)))))
     else if commandOf cfg kind = Some kTernary_Command then
       bind (expression cfg n) (\<lambda>test. bind (expression cfg n) (\<lambda>ifTrue.
       bind (expression cfg n) (\<lambda>ifFalse.
       return (Some (TernaryExpression test ifTrue ifFalse)))))
     else if commandOf cfg kind = Some kVariableReference_Command then
       bind (possiblyBuiltinSymbolRef cfg) (\<lambda>var. bind readU8 (\<lambda>refKind.
       return (Some (VariableReference var refKind))))
     else if commandOf cfg kind = Some kVoid_Command then return None
     else
       bind (SkASSERT cfg False) (\<lambda>_. return None))"

subsection \<open>Program elements\<close>

text \<open>An assertion \<^verbatim>\<open>SkASSERT(p->is<T>())\<close> reads through the pointer, in a debug build
  only; the form \<^verbatim>\<open>SkASSERT(p && p->is<T>())\<close> tests the pointer first.\<close>

definition assertIs :: "config \<Rightarrow> (Symbol \<Rightarrow> bool) \<Rightarrow> symptr \<Rightarrow> unit dec" where
  "assertIs cfg P p =
     (if SK_DEBUG cfg then bind (derefSymbol p) (\<lambda>v. SkASSERT cfg (P v)) else return ())"

definition assertNonNullIs :: "config \<Rightarrow> (Symbol \<Rightarrow> bool) \<Rightarrow> symptr \<Rightarrow> unit dec" where
  "assertNonNullIs cfg P p =
     (if SK_DEBUG cfg
      then (if p = None then SkASSERT cfg False
            else bind (derefSymbol p) (\<lambda>v. SkASSERT cfg (P v)))
      else return ())"

text \<open>\<^verbatim>\<open>decl->setDefinition(result.get())\<close>\<close>

definition setDefinition :: "symptr \<Rightarrow> ProgramElement \<Rightarrow> unit dec" where
  "setDefinition decl def = bind (derefSymbol decl) (\<lambda>_.
     modify (\<lambda>s. s\<lparr>definitions := definitions s @ [(the decl, def)]\<rparr>))"

fun element :: "config \<Rightarrow> nat \<Rightarrow> (ProgramElement option) dec" where
  "element cfg 0 = fail OutOfFuel"
| "element cfg (Suc n) = bind readU8 (\<lambda>kind.
     if commandOf cfg kind = Some kFunctionDefinition_Command then
       bind (symbolRef cfg) (\<lambda>decl. bind (statement cfg n) (\<lambda>body.
       bind isBuiltin (\<lambda>builtin.
       bind (setDefinition decl (FunctionDefinition decl body builtin)) (\<lambda>_.
       return (Some (FunctionDefinition decl body builtin))))))
     else if commandOf cfg kind = Some kFunctionPrototype_Command then
       bind (symbolRef cfg) (\<lambda>decl. return (Some (FunctionPrototype decl False)))
     else if commandOf cfg kind = Some kGlobalVar_Command then
       bind (statement cfg n) (\<lambda>decl. return (Some (GlobalVarDeclaration decl)))
     else if commandOf cfg kind = Some kInterfaceBlock_Command then
       bind (symbol cfg n) (\<lambda>var. bind (assertNonNullIs cfg isVariable var) (\<lambda>_.
       bind readString (\<lambda>typeName. bind readString (\<lambda>instanceName.
       bind readU8 (\<lambda>arraySize. bind (derefSymbol var) (\<lambda>_.
       return (Some (InterfaceBlock var typeName instanceName (uint arraySize)))))))))
     else if commandOf cfg kind = Some kStructDefinition_Command then
       bind (symbol cfg n) (\<lambda>ty. bind (assertNonNullIs cfg isType ty) (\<lambda>_.
       bind (derefSymbol ty) (\<lambda>_. return (Some (StructDefinition ty)))))
     else if commandOf cfg kind = Some kSharedFunction_Command then
       bind readU8 (\<lambda>count.
       bind (forN (unat count)
               (bind (symbol cfg n) (\<lambda>param. assertIs cfg isVariable param))) (\<lambda>_.
       bind (symbol cfg n) (\<lambda>decl. bind (assertIs cfg isFunctionDeclaration decl) (\<lambda>_.
       bind (element cfg n) (\<lambda>result.
       bind (if SK_DEBUG cfg
             then (case result of None \<Rightarrow> fail NullDeref
                   | Some r \<Rightarrow> SkASSERT cfg (isFunctionDefinition r))
             else return ()) (\<lambda>_.
       return result))))))
     else if commandOf cfg kind = Some kElementsComplete_Command then return None
     else
       bind (SkASSERT cfg False) (\<lambda>_. return None))"

text \<open>The \<^verbatim>\<open>while\<close> loop of \<^verbatim>\<open>elements()\<close> runs until \<^verbatim>\<open>element()\<close> returns null; its
  second argument bounds the number of passes.\<close>

fun elementsLoop :: "config \<Rightarrow> nat \<Rightarrow> nat \<Rightarrow> (ProgramElement list) dec" where
  "elementsLoop cfg n 0 = fail OutOfFuel"
| "elementsLoop cfg n (Suc k) = bind (element cfg n) (\<lambda>elem.
     case elem of None \<Rightarrow> return []
     | Some e \<Rightarrow> bind (elementsLoop cfg n k) (\<lambda>result. return (e # result)))"

definition elements :: "config \<Rightarrow> nat \<Rightarrow> (ProgramElement list) dec" where
  "elements cfg n = bind readU8 (\<lambda>command.
     bind (SkASSERT cfg (commandOf cfg command = Some kElements_Command)) (\<lambda>_.
     elementsLoop cfg n n))"

subsection \<open>The program\<close>

record Program =
  prog_fConfig :: progconfig
  prog_fOwnedElements :: "ProgramElement list"
  prog_fModifiers :: nat
  prog_fSymbols :: "nat option"
  prog_fPool :: bool
  prog_fUseFlipRTUniform :: bool

text \<open>\<^verbatim>\<open>std::move(ThreadContext::MemoryPool())\<close> followed by \<^verbatim>\<open>pool->detachFromThread()\<close>:
  the pool leaves the thread-local slot and is no longer attached. The result is the
  attachment flag of the pool that was taken.\<close>

definition takeMemoryPool :: "bool dec" where
  "takeMemoryPool s = (case memoryPool s of None \<Rightarrow> Inl NullDeref
                       | Some _ \<Rightarrow> Inr (False, s\<lparr>memoryPool := None\<rparr>))"

definition newModifiersPool :: "nat dec" where
  "newModifiersPool s = Inr (length (pools s), s\<lparr>pools := pools s @ [[]]\<rparr>)"

text \<open>\<^verbatim>\<open>fSymbolTable = fSymbolTable->fParent\<close>\<close>

definition popSymbolTable :: "unit dec" where
  "popSymbolTable = bind currentTable (\<lambda>(t, tab). modify (\<lambda>s. s\<lparr>fSymbolTable := fParent tab\<rparr>))"

text \<open>Code outside the class cannot reach the private members of the rehydrator: an
  external effect leaves the buffer, the cursor, the string start, the current symbol table
  and the id table as they are.\<close>

definition external :: "(rstate \<Rightarrow> rstate) \<Rightarrow> unit dec" where
  "external f = modify (\<lambda>s. (f s)\<lparr>fSrc := fSrc s, fIP := fIP s, fStringStart := fStringStart s,
                                   fSymbolTable := fSymbolTable s, fSymbols := fSymbols s\<rparr>)"

text \<open>The part of \<^verbatim>\<open>program()\<close> after the element list (lines 290 to 302).\<close>

definition programFinish ::
  "config \<Rightarrow> progconfig \<Rightarrow> progconfig option \<Rightarrow> nat option \<Rightarrow> nat \<Rightarrow> ProgramElement list
     \<Rightarrow> Program dec" where
  "programFinish cfg conf oldConfig oldModifiersPool mods elems =
     bind (modify (\<lambda>s. s\<lparr>ctx_fConfig := oldConfig\<rparr>)) (\<lambda>_.
     bind (modify (\<lambda>s. s\<lparr>ctx_fModifiersPool := oldModifiersPool\<rparr>)) (\<lambda>_.
     bind readU8 (\<lambda>flip.
     bind takeMemoryPool (\<lambda>pool.
     bind (gets fSymbolTable) (\<lambda>syms.
     bind popSymbolTable (\<lambda>_.
     bind (external (dsl_End cfg)) (\<lambda>_.
     return \<lparr>prog_fConfig = conf, prog_fOwnedElements = elems, prog_fModifiers = mods,
              prog_fSymbols = syms, prog_fPool = pool,
              prog_fUseFlipRTUniform = (flip \<noteq> 0)\<rparr>)))))))"

definition program :: "config \<Rightarrow> nat \<Rightarrow> Program dec" where
  "program cfg n = bind readU8 (\<lambda>command.
     bind (SkASSERT cfg (commandOf cfg command = Some kProgram_Command)) (\<lambda>_.
     bind readU8 (\<lambda>kind. bind readU8 (\<lambda>version.
     let conf = \<lparr>fKind = kind, fRequiredSkSLVersion = version, fMaxVersionAllowed = 300\<rparr> in
     bind (gets ctx_fConfig) (\<lambda>oldConfig.
     bind (gets ctx_fModifiersPool) (\<lambda>oldModifiersPool.
     bind (modify (\<lambda>s. s\<lparr>ctx_fConfig := Some conf\<rparr>)) (\<lambda>_.
     bind (modify (\<lambda>s. s\<lparr>fSymbolTable := moduleForProgramKind cfg kind\<rparr>)) (\<lambda>_.
     bind (external (dsl_Start cfg kind)) (\<lambda>_.
     bind newModifiersPool (\<lambda>mods.
     bind (modify (\<lambda>s. s\<lparr>ctx_fModifiersPool := Some mods\<rparr>)) (\<lambda>_.
     bind (symbolTable cfg n) (\<lambda>_.
     bind (elements cfg n) (\<lambda>elems.
     programFinish cfg conf oldConfig oldModifiersPool mods elems)))))))))))))"

subsection \<open>Construction and destruction of a session\<close>

text \<open>
  The constructor (lines 105 to 119). \<open>env\<close> holds the heaps and the ambient context the
  compiler supplies; \<open>symbols\<close> is the table the session starts in. The compound
  assignment \<^verbatim>\<open>fIP += this->readU16()\<close> adds the length to the cursor as it stands after
  the length was read. No bound is checked there: the cursor may leave the buffer.
\<close>

definition Rehydrator :: "config \<Rightarrow> rstate \<Rightarrow> byte list \<Rightarrow> nat option \<Rightarrow> error + rstate" where
  "Rehydrator cfg env src syms =
     (case (bind (modify (\<lambda>s. s\<lparr>fSrc := src, fIP := 0, fStringStart := 0,
                                  fSymbolTable := syms, fSymbols := []\<rparr>)) (\<lambda>_.
            bind (SkASSERT cfg (syms \<noteq> None)) (\<lambda>_.
            bind (if SK_DEBUG cfg then bind isBuiltin (\<lambda>b. SkASSERT cfg b) else return ()) (\<lambda>_.
            bind readU16 (\<lambda>version.
            bind (SkASSERT cfg (version = kVersion cfg)) (\<lambda>_.
            bind (modify (\<lambda>s. s\<lparr>fStringStart := fIP s\<rparr>)) (\<lambda>_.
            bind readU16 (\<lambda>len.
            modify (\<lambda>s. s\<lparr>fIP := fIP s + unat len\<rparr>))))))))) env
      of Inl e \<Rightarrow> Inl e | Inr (_, s) \<Rightarrow> Inr s)"

text \<open>The destructor exists in a debug build only (lines 121 to 126).\<close>

definition Rehydrator_dtor :: "config \<Rightarrow> unit dec" where
  "Rehydrator_dtor cfg =
     (if SK_DEBUG cfg then bind (gets (\<lambda>s. fIP s = length (fSrc s))) (\<lambda>atEnd. SkASSERT cfg atEnd)
      else return ())"

text \<open>A decode session: construct the rehydrator on the buffer, decode one program,
  destroy the rehydrator.\<close>

definition session ::
  "config \<Rightarrow> nat \<Rightarrow> rstate \<Rightarrow> byte list \<Rightarrow> nat option \<Rightarrow> error + (Program \<times> rstate)" where
  "session cfg n env src syms =
     (case Rehydrator cfg env src syms of Inl e \<Rightarrow> Inl e
      | Inr s \<Rightarrow> bind (program cfg n) (\<lambda>p. bind (Rehydrator_dtor cfg) (\<lambda>_. return p)) s)"

subsection \<open>A concrete configuration\<close>

text \<open>
  The examples below run the decoder under a concrete configuration: the tags numbered in
  the order of \<open>commandList\<close>, format version 11, the sentinel \<open>0xFFFF\<close>, and simple
  stand-ins for the functions of the type system and of the DSL. \<open>testEnv\<close> is a start
  state with one builtin root scope that binds the types \<open>int\<close>, \<open>uint\<close> and
  \<open>float\<close>.
\<close>

definition commandList :: "command list" where
  "commandList =
    [kArrayType_Command, kBinary_Command, kBlock_Command,
     kBoolLiteral_Command, kBreak_Command, kBuiltinLayout_Command,
     kConstructorArray_Command, kConstructorArrayCast_Command, kConstructorCompound_Command,
     kConstructorCompoundCast_Command, kConstructorDiagonalMatrix_Command, kConstructorMatrixResize_Command,
     kConstructorScalarCast_Command, kConstructorSplat_Command, kConstructorStruct_Command,
     kContinue_Command, kDefaultLayout_Command, kDefaultModifiers_Command,
     kDiscard_Command, kDo_Command, kElements_Command,
     kElementsComplete_Command, kExpressionStatement_Command, kField_Command,
     kFieldAccess_Command, kFloatLiteral_Command, kFor_Command,
     kFunctionCall_Command, kFunctionDeclaration_Command, kFunctionDefinition_Command,
     kFunctionPrototype_Command, kGlobalVar_Command, kIf_Command,
     kIndex_Command, kInterfaceBlock_Command, kIntLiteral_Command,
     kLayout_Command, kModifiers8Bit_Command, kModifiers_Command,
     kNop_Command, kPostfix_Command, kPrefix_Command,
     kProgram_Command, kReturn_Command, kSetting_Command,
     kSharedFunction_Command, kStructDefinition_Command, kStructType_Command,
     kSwitch_Command, kSwizzle_Command, kSymbolRef_Command,
     kSymbolTable_Command, kTernary_Command, kVariable_Command,
     kVariableReference_Command, kVarDeclaration_Command, kVoid_Command]"

definition testCommandOf :: "byte \<Rightarrow> command option" where
  "testCommandOf b = (if unat b < length commandList then Some (commandList ! unat b) else None)"

fun testIsUnsigned :: "Symbol \<Rightarrow> bool" where
  "testIsUnsigned (Type_Builtin n) = (n = ''uint'')"
| "testIsUnsigned _ = False"

definition testConfig :: "bool \<Rightarrow> config" where
  "testConfig debug =
     \<lparr>SK_DEBUG = debug, kVersion = 11, kBuiltin_Symbol = 65535, commandOf = testCommandOf,
      getArrayName = (\<lambda>_ _. ''array''), fieldName = (\<lambda>_ _ _. ''field''),
      isUnsigned = testIsUnsigned, findBestFunctionForCall = (\<lambda>_ f _. f),
      moduleForProgramKind = (\<lambda>_. Some 0),
      dsl_Start = (\<lambda>_ s. s\<lparr>memoryPool := Some True\<rparr>), dsl_End = (\<lambda>s. s)\<rparr>"

definition testEnv :: rstate where
  "testEnv =
     \<lparr>fSrc = [], fIP = 0, fStringStart = 0, fSymbolTable = Some 0, fSymbols = [],
      tables = [\<lparr>fParent = None, fBuiltin = True, fOwnedSymbols = [0, 1, 2],
                 fBindings = [(''int'', 0), (''uint'', 1), (''float'', 2)]\<rparr>],
      symbols = [Type_Builtin ''int'', Type_Builtin ''uint'', Type_Builtin ''float''],
      pools = [[]], ctx_fConfig = None, ctx_fModifiersPool = Some 0, definitions = [],
      memoryPool = None\<rparr>"

definition testState :: "byte list \<Rightarrow> rstate" where
  "testState src = testEnv\<lparr>fSrc := src\<rparr>"

text \<open>An encoded symbol table: one owned variable \<open>x\<close> of type \<open>int\<close>, and two
  visible entries, the owned symbol 0 and the builtin \<open>float\<close>. The strings follow the
  table.\<close>

definition exampleTable :: "byte list" where
  "exampleTable =
     [51, 0, 1, 0,
      53, 0, 0, 17, 24, 0, 50, 0xFF, 0xFF, 26, 0, 0,
      2, 0, 0, 0, 0xFF, 0xFF, 30, 0,
      1, 120, 3, 105, 110, 116, 5, 102, 108, 111, 97, 116]"

text \<open>The state of the decode of \<open>exampleTable\<close> after the owned pass.\<close>

definition exampleOwned :: rstate where
  "exampleOwned =
     testEnv\<lparr>fSrc := exampleTable, fIP := 16, fSymbolTable := Some 1, fSymbols := [Some 3],
       tables := tables testEnv @
         [\<lparr>fParent = Some 0, fBuiltin = False, fOwnedSymbols = [3], fBindings = []\<rparr>],
       symbols := symbols testEnv @ [Variable Modifiers_default ''x'' (Some 0) False 0],
       pools := [[Modifiers_default]]\<rparr>"

text \<open>An encoded program with an empty root scope and no elements, and a whole buffer:
  the header (version 11, no strings) followed by that program.\<close>

definition exampleProgram :: "byte list" where
  "exampleProgram = [42, 0, 0, 51, 0, 0, 0, 0, 0, 20, 21, 1]"

definition exampleSession :: "byte list" where
  "exampleSession = [11, 0, 0, 0] @ exampleProgram"


subsection \<open>The single-argument constructors\<close>

text \<open>The tags of the cast, resize and splat constructors (lines 494 to 537), and the node
  each of them builds from the type and the argument.\<close>

definition castFamily :: "command list" where
  "castFamily = [kConstructorArrayCast_Command, kConstructorCompoundCast_Command,
     kConstructorDiagonalMatrix_Command, kConstructorMatrixResize_Command,
     kConstructorScalarCast_Command, kConstructorSplat_Command]"

fun castNode :: "command \<Rightarrow> symptr \<Rightarrow> Expression option \<Rightarrow> Expression" where
  "castNode kConstructorArrayCast_Command ty arg = ConstructorArrayCast ty arg"
| "castNode kConstructorCompoundCast_Command ty arg = ConstructorCompoundCast ty arg"
| "castNode kConstructorDiagonalMatrix_Command ty arg = ConstructorDiagonalMatrix ty arg"
| "castNode kConstructorMatrixResize_Command ty arg = ConstructorMatrixResize ty arg"
| "castNode kConstructorScalarCast_Command ty arg = ConstructorScalarCast ty arg"
| "castNode c ty arg = ConstructorSplat ty arg"

subsection \<open>The symbol-table decode in the words of the specification\<close>



subsection \<open>The value of a float\<close>

text \<open>
  A \<^verbatim>\<open>float\<close> is an IEEE 754 binary32 object: one sign bit, eight exponent bits with
  bias 127 and 23 fraction bits. \<open>float_value\<close> is the real number that a pattern
  denotes; the patterns with exponent 255 are the infinities and NaNs and denote no number.
\<close>

definition float_sign :: "32 word \<Rightarrow> bool" where
  "float_sign w = (2 ^ 31 \<le> unat w)"

definition float_exponent :: "32 word \<Rightarrow> nat" where
  "float_exponent w = (unat w div 2 ^ 23) mod 256"

definition float_mantissa :: "32 word \<Rightarrow> nat" where
  "float_mantissa w = unat w mod 2 ^ 23"

definition float_finite :: "32 word \<Rightarrow> bool" where
  "float_finite w = (float_exponent w \<noteq> 255)"

definition float_magnitude :: "32 word \<Rightarrow> real" where
  "float_magnitude w =
     (if float_exponent w = 0 then real (float_mantissa w) / 2 ^ 149
      else if 150 \<le> float_exponent w
        then real (2 ^ 23 + float_mantissa w) * 2 ^ (float_exponent w - 150)
        else real (2 ^ 23 + float_mantissa w) / 2 ^ (150 - float_exponent w))"

definition float_value :: "32 word \<Rightarrow> real" where
  "float_value w = (if float_sign w then - float_magnitude w else float_magnitude w)"

subsection \<open>Predicates used in the proofs\<close>

text \<open>Two states have the same scopes when the current symbol table is the same and every
  table has the same parent. \<open>preserves m\<close>: every returning run of \<open>m\<close> keeps the
  scopes. The three lists name the tags that \<open>symbol\<close>, \<open>statement\<close> and
  \<open>expression\<close> have a case for.\<close>

definition sameScopes :: "rstate \<Rightarrow> rstate \<Rightarrow> bool" where
  "sameScopes s s' \<longleftrightarrow> fSymbolTable s' = fSymbolTable s
     \<and> map fParent (tables s') = map fParent (tables s)"


definition symbolCommands :: "command list" where
  "symbolCommands = [kArrayType_Command, kFunctionDeclaration_Command, kField_Command,
     kStructType_Command, kSymbolRef_Command, kVariable_Command]"

definition statementCommands :: "command list" where
  "statementCommands = [kBlock_Command, kBreak_Command, kContinue_Command, kDiscard_Command,
     kDo_Command, kExpressionStatement_Command, kFor_Command, kIf_Command, kNop_Command,
     kReturn_Command, kSwitch_Command, kVarDeclaration_Command, kVoid_Command]"

definition expressionCommands :: "command list" where
  "expressionCommands = [kBinary_Command, kBoolLiteral_Command, kConstructorArray_Command,
     kConstructorArrayCast_Command, kConstructorCompound_Command,
     kConstructorDiagonalMatrix_Command, kConstructorMatrixResize_Command,
     kConstructorScalarCast_Command, kConstructorSplat_Command, kConstructorStruct_Command,
     kConstructorCompoundCast_Command, kFieldAccess_Command, kFloatLiteral_Command,
     kFunctionCall_Command, kIndex_Command, kIntLiteral_Command, kPostfix_Command,
     kPrefix_Command, kSetting_Command, kSwizzle_Command, kTernary_Command,
     kVariableReference_Command, kVoid_Command]"

text \<open>The tokens that the passes of the loop over the visible entries read, in order, up to
  the first pass that fails.\<close>

primrec visibleTokens :: "config \<Rightarrow> symptr list \<Rightarrow> nat \<Rightarrow> rstate \<Rightarrow> 16 word list" where
  "visibleTokens cfg ownedSymbols 0 s = []"
| "visibleTokens cfg ownedSymbols (Suc k) s =
     (case readU16 s of Inl e \<Rightarrow> []
      | Inr (index, s1) \<Rightarrow>
          index # (case visibleEntry cfg ownedSymbols s of Inl e \<Rightarrow> []
                   | Inr (u, s') \<Rightarrow> visibleTokens cfg ownedSymbols k s'))"

text \<open>Two states have the same buffer when the bytes are the same and the cursor has not
  moved back. \<open>advances m\<close>: every returning run of \<open>m\<close> keeps the buffer.\<close>

definition sameBuffer :: "rstate \<Rightarrow> rstate \<Rightarrow> bool" where
  "sameBuffer s s' \<longleftrightarrow> fSrc s' = fSrc s \<and> fIP s \<le> fIP s'"

definition advances :: "'a dec \<Rightarrow> bool" where
  "advances m \<longleftrightarrow> (\<forall>s r s'. m s = Inr (r, s') \<longrightarrow> sameBuffer s s')"

text \<open>
  The bound on the call depth. \<open>remaining s\<close> is the number of bytes between the cursor
  and the end of the buffer. \<open>noFuel m\<close>: \<open>m\<close> never reports \<open>OutOfFuel\<close>.
  \<open>fuelOk n m\<close>: \<open>m\<close> does not report \<open>OutOfFuel\<close> on a state with fewer than
  \<open>n\<close> bytes left. \<open>stable m m'\<close>: wherever \<open>m\<close> does not report \<open>OutOfFuel\<close>,
  \<open>m'\<close> does what \<open>m\<close> does.
\<close>

definition remaining :: "rstate \<Rightarrow> nat" where
  "remaining s = length (fSrc s) - fIP s"

definition noFuel :: "'a dec \<Rightarrow> bool" where
  "noFuel m \<longleftrightarrow> (\<forall>s. m s \<noteq> Inl OutOfFuel)"

definition fuelOk :: "nat \<Rightarrow> 'a dec \<Rightarrow> bool" where
  "fuelOk n m \<longleftrightarrow> (\<forall>s. remaining s < n \<longrightarrow> m s \<noteq> Inl OutOfFuel)"

definition stable :: "'a dec \<Rightarrow> 'a dec \<Rightarrow> bool" where
  "stable m m' \<longleftrightarrow> (\<forall>s. m s \<noteq> Inl OutOfFuel \<longrightarrow> m' s = m s)"


definition extendsTables :: "rstate \<Rightarrow> rstate \<Rightarrow> bool" where
  "extendsTables s s' \<longleftrightarrow> (\<exists>xs. map fParent (tables s') = map fParent (tables s) @ xs)"


section \<open>Properties\<close>

subsection \<open>Sequencing\<close>

declare type.simps [simp del]
declare expressionArray.simps [simp del]

lemma bind_Inr_iff:
  "bind m f s = Inr r \<longleftrightarrow> (\<exists>x s1. m s = Inr (x, s1) \<and> f x s1 = Inr r)"
  by (auto simp: bind_def split: sum.splits)

lemma bind_Inl_iff:
  "bind m f s = Inl e \<longleftrightarrow> (m s = Inl e \<or> (\<exists>x s1. m s = Inr (x, s1) \<and> f x s1 = Inl e))"
  by (auto simp: bind_def split: sum.splits)

lemma bind_Inr [simp]: "m s = Inr (x, s1) \<Longrightarrow> bind m f s = f x s1"
  by (simp add: bind_def)

lemma bind_Inl [simp]: "m s = Inl e \<Longrightarrow> bind m f s = Inl e"
  by (simp add: bind_def)

lemma readU8_fSymbolTable: "readU8 s = Inr (x, s1) \<Longrightarrow> fSymbolTable s1 = fSymbolTable s"
  by (auto simp: readU8_def split: if_splits)

subsection \<open>Scope balance\<close>

lemma AutoRehydratorSymbolTable_restores:
  assumes "AutoRehydratorSymbolTable cfg n body s = Inr (r, s')"
  shows "fSymbolTable s' = fSymbolTable s"
  using assms
  by (auto simp: AutoRehydratorSymbolTable_def AutoRehydratorSymbolTable_ctor_def
      AutoRehydratorSymbolTable_dtor_def bind_Inr_iff gets_def modify_def return_def)

lemma block_example:
  "statement (testConfig True) 3 (testState [2, 51, 0, 0, 0, 0, 0, 1, 4, 0]) =
     Inr (Some (Block [Some BreakStatement] 0 (Some 1)),
          testEnv\<lparr>fSrc := [2, 51, 0, 0, 0, 0, 0, 1, 4, 0], fIP := 10,
            tables := tables testEnv @
              [\<lparr>fParent = Some 0, fBuiltin = False, fOwnedSymbols = [], fBindings = []\<rparr>]\<rparr>)"
  by code_simp

lemma block_example_tag:
  "readU8 (testState [2, 51, 0, 0, 0, 0, 0, 1, 4, 0]) =
     Inr (2, testState [2, 51, 0, 0, 0, 0, 0, 1, 4, 0]\<lparr>fIP := 1\<rparr>)"
  by (simp add: readU8_def testState_def testEnv_def)

lemma testCommandOf_2: "commandOf (testConfig True) 2 = Some kBlock_Command"
  by (simp add: testConfig_def testCommandOf_def commandList_def)

text \<open>
  C2. When the decode of a statement whose tag is Block, For or Switch returns, the current
  symbol table is the one that was current when the decode began. The guard object
  restores it, whatever scope was pushed and used in between.
\<close>

theorem scope_balance:
  assumes "statement cfg n s = Inr (r, s')"
    and "readU8 s = Inr (kind, s1)"
    and "commandOf cfg kind \<in> {Some kBlock_Command, Some kFor_Command, Some kSwitch_Command}"
  shows "fSymbolTable s' = fSymbolTable s"
proof (cases n)
  case 0
  with assms show ?thesis by (simp add: fail_def)
next
  case (Suc m)
  from assms(3) consider "commandOf cfg kind = Some kBlock_Command"
    | "commandOf cfg kind = Some kFor_Command" | "commandOf cfg kind = Some kSwitch_Command"
    by auto
  then show ?thesis
  proof cases
    case 1
    with assms(1,2) Suc show ?thesis
      by (auto dest!: AutoRehydratorSymbolTable_restores readU8_fSymbolTable)
  next
    case 2
    with assms(1,2) Suc show ?thesis
      by (auto dest!: AutoRehydratorSymbolTable_restores readU8_fSymbolTable)
  next
    case 3
    with assms(1,2) Suc show ?thesis
      by (auto simp: bind_Inr_iff dest!: AutoRehydratorSymbolTable_restores readU8_fSymbolTable)
  qed
qed

text \<open>A block with its own scope: the block records the child scope 1, and the current
  scope is the root scope 0 before and after.\<close>

theorem scope_balance_witness:
  "statement (testConfig True) 3 (testState [2, 51, 0, 0, 0, 0, 0, 1, 4, 0]) =
     Inr (Some (Block [Some BreakStatement] 0 (Some 1)),
          testEnv\<lparr>fSrc := [2, 51, 0, 0, 0, 0, 0, 1, 4, 0], fIP := 10,
            tables := tables testEnv @
              [\<lparr>fParent = Some 0, fBuiltin = False, fOwnedSymbols = [], fBindings = []\<rparr>]\<rparr>)
   \<and> fSymbolTable (testEnv\<lparr>fSrc := [2, 51, 0, 0, 0, 0, 0, 1, 4, 0], fIP := 10,
            tables := tables testEnv @
              [\<lparr>fParent = Some 0, fBuiltin = False, fOwnedSymbols = [], fBindings = []\<rparr>]\<rparr>)
       = fSymbolTable (testState [2, 51, 0, 0, 0, 0, 0, 1, 4, 0])
   \<and> fSymbolTable (testState [2, 51, 0, 0, 0, 0, 0, 1, 4, 0]) = Some 0"
  using scope_balance [OF block_example block_example_tag] testCommandOf_2 block_example
  by (simp add: testState_def testEnv_def)

subsection \<open>Literals\<close>

lemma derefSymbol_state: "derefSymbol p s = Inr (v, s2) \<Longrightarrow> s2 = s"
  by (auto simp: derefSymbol_def split: option.splits if_splits)

lemma readU32_bytes:
  "readU32 s = Inr (w, s') \<Longrightarrow>
     fIP s + 3 < length (fSrc s) \<and> s' = s\<lparr>fIP := fIP s + 4\<rparr> \<and>
     w = word_cat (word_cat (fSrc s ! (fIP s + 3)) (fSrc s ! (fIP s + 2)) :: 16 word)
                  (word_cat (fSrc s ! (fIP s + 1)) (fSrc s ! fIP s) :: 16 word)"
  by (auto simp: readU32_def split: if_splits)

lemma readU8_testState:
  "readU8 (testState (b # bs)) = Inr (b, testState (b # bs)\<lparr>fIP := 1\<rparr>)"
  by (simp add: readU8_def testState_def testEnv_def)

lemma testCommandOf_35: "commandOf (testConfig d) 35 = Some kIntLiteral_Command"
  by (simp add: testConfig_def testCommandOf_def commandList_def)

lemma uintLiteral_example:
  "expression (testConfig True) (Suc 2)
     (testState [35, 50, 0xFF, 0xFF, 10, 0, 0xFF, 0xFF, 0xFF, 0xFF, 4, 117, 105, 110, 116]) =
   Inr (Some (IntLiteral 4294967295 (Some 1)),
        testState [35, 50, 0xFF, 0xFF, 10, 0, 0xFF, 0xFF, 0xFF, 0xFF, 4, 117, 105, 110, 116]
          \<lparr>fIP := 10\<rparr>)"
  by code_simp

text \<open>
  C6. An IntLiteral expression decodes its type first and then reads the raw 32-bit value
  after it: the literal holds the zero-extension of the 32 bits when the type is unsigned
  and their sign-extension otherwise.
\<close>

theorem intLiteral_extension:
  assumes "readU8 s = Inr (kind, s1)" and "commandOf cfg kind = Some kIntLiteral_Command"
    and "expression cfg (Suc n) s = Inr (r, s')"
  shows "\<exists>ty tyv s2 w. type cfg n s1 = Inr (ty, s2) \<and> derefSymbol ty s2 = Inr (tyv, s2)
           \<and> readU32 s2 = Inr (w, s')
           \<and> r = Some (IntLiteral (if isUnsigned cfg tyv then uint w else sint w) ty)"
proof -
  from assms obtain ty s2 tyv s3 where a: "type cfg n s1 = Inr (ty, s2)"
      "derefSymbol ty s2 = Inr (tyv, s3)"
      "(if isUnsigned cfg tyv
        then bind readU32 (\<lambda>v. return (Some (IntLiteral (uint v) ty)))
        else bind readS32 (\<lambda>v. return (Some (IntLiteral (sint v) ty)))) s3 = Inr (r, s')"
    by (auto simp: bind_Inr_iff)
  from a(2) have s3: "s3 = s2" by (rule derefSymbol_state)
  from a(3) obtain w where "readU32 s2 = Inr (w, s')"
      "r = Some (IntLiteral (if isUnsigned cfg tyv then uint w else sint w) ty)"
    unfolding s3 readS32_def by (auto simp: bind_Inr_iff return_def split: if_splits)
  with a(1,2) s3 show ?thesis by blast
qed

text \<open>The wire value \<open>0xFFFFFFFF\<close> of a literal of type \<open>uint\<close> decodes to
  4294967295.\<close>

theorem intLiteral_extension_witness:
  "\<exists>ty tyv s2 w.
     type (testConfig True) 2
       (testState [35, 50, 0xFF, 0xFF, 10, 0, 0xFF, 0xFF, 0xFF, 0xFF, 4, 117, 105, 110, 116]
          \<lparr>fIP := 1\<rparr>) = Inr (ty, s2)
     \<and> derefSymbol ty s2 = Inr (tyv, s2)
     \<and> readU32 s2 = Inr (w,
          testState [35, 50, 0xFF, 0xFF, 10, 0, 0xFF, 0xFF, 0xFF, 0xFF, 4, 117, 105, 110, 116]
            \<lparr>fIP := 10\<rparr>)
     \<and> Some (IntLiteral 4294967295 (Some 1)) =
         Some (IntLiteral (if isUnsigned (testConfig True) tyv then uint w else sint w) ty)"
  by (rule intLiteral_extension [OF readU8_testState testCommandOf_35 uintLiteral_example])

subsection \<open>Single-argument constructors\<close>

lemma expression_cast:
  assumes "readU8 s = Inr (kind, s1)" and "commandOf cfg kind = Some c" and "c \<in> set castFamily"
  shows "expression cfg (Suc n) s =
     bind (type cfg n) (\<lambda>ty. bind (expressionArray cfg n) (\<lambda>args.
     bind (singleArgument cfg args) (\<lambda>arg. return (Some (castNode c ty arg))))) s1"
  using assms by (auto simp: castFamily_def)

lemma singleArgument_debug:
  "SK_DEBUG cfg \<Longrightarrow> singleArgument cfg args s =
     (if length args = 1 then Inr (args ! 0, s) else Inl AssertFailed)"
  by (auto simp: singleArgument_def SkASSERT_def fail_def return_def bind_def)

lemma testCommandOf_12: "commandOf (testConfig d) 12 = Some kConstructorScalarCast_Command"
  by (simp add: testConfig_def testCommandOf_def commandList_def)

lemma scalarCast_example_type:
  "type (testConfig True) 2
     (testState [12, 50, 0xFF, 0xFF, 11, 0, 2, 3, 1, 3, 0, 5, 102, 108, 111, 97, 116]
        \<lparr>fIP := 1\<rparr>) =
   Inr (Some 2, testState [12, 50, 0xFF, 0xFF, 11, 0, 2, 3, 1, 3, 0, 5, 102, 108, 111, 97, 116]
        \<lparr>fIP := 6\<rparr>)"
  by code_simp

lemma scalarCast_example_args:
  "expressionArray (testConfig True) 2
     (testState [12, 50, 0xFF, 0xFF, 11, 0, 2, 3, 1, 3, 0, 5, 102, 108, 111, 97, 116]
        \<lparr>fIP := 6\<rparr>) =
   Inr ([Some (BoolLiteral True), Some (BoolLiteral False)],
        testState [12, 50, 0xFF, 0xFF, 11, 0, 2, 3, 1, 3, 0, 5, 102, 108, 111, 97, 116]
        \<lparr>fIP := 11\<rparr>)"
  by code_simp

text \<open>
  C7, as the code has it. In a build with assertions (\<open>SK_DEBUG\<close>), a constructor of the
  cast, resize and splat family decodes a target type and then the encoded argument list;
  when its decode returns, the list held exactly one argument, and a list of any other
  length fails the assertion.
\<close>

theorem single_argument_constructor:
  assumes "SK_DEBUG cfg" and "readU8 s = Inr (kind, s1)" and "commandOf cfg kind = Some c"
    and "c \<in> set castFamily"
  shows "(\<forall>r s'. expression cfg (Suc n) s = Inr (r, s') \<longrightarrow>
            (\<exists>ty s2 arg. type cfg n s1 = Inr (ty, s2) \<and> expressionArray cfg n s2 = Inr ([arg], s')
                \<and> r = Some (castNode c ty arg)))
       \<and> (\<forall>ty s2 args s3. type cfg n s1 = Inr (ty, s2) \<and> expressionArray cfg n s2 = Inr (args, s3)
                \<and> length args \<noteq> 1 \<longrightarrow> expression cfg (Suc n) s = Inl AssertFailed)"
proof (intro conjI allI impI)
  fix r s' assume "expression cfg (Suc n) s = Inr (r, s')"
  then obtain ty s2 args s3 where a: "type cfg n s1 = Inr (ty, s2)"
      "expressionArray cfg n s2 = Inr (args, s3)"
      "bind (singleArgument cfg args) (\<lambda>arg. return (Some (castNode c ty arg))) s3 = Inr (r, s')"
    unfolding expression_cast [OF assms(2,3,4)] bind_Inr_iff by blast
  from a(3) assms(1) have "length args = 1 \<and> s' = s3 \<and> r = Some (castNode c ty (args ! 0))"
    by (auto simp: bind_Inr_iff singleArgument_debug return_def split: if_splits)
  moreover from this have "args = [args ! 0]" by (cases args) auto
  ultimately show "\<exists>ty s2 arg. type cfg n s1 = Inr (ty, s2)
      \<and> expressionArray cfg n s2 = Inr ([arg], s') \<and> r = Some (castNode c ty arg)"
    using a(1,2) by metis
next
  fix ty s2 args s3
  assume "type cfg n s1 = Inr (ty, s2) \<and> expressionArray cfg n s2 = Inr (args, s3)
    \<and> length args \<noteq> 1"
  then show "expression cfg (Suc n) s = Inl AssertFailed"
    unfolding expression_cast [OF assms(2,3,4)]
    by (simp add: singleArgument_debug assms(1))
qed

text \<open>A scalar cast encoded with two arguments is fatal in a debug build.\<close>

theorem single_argument_constructor_witness:
  "expression (testConfig True) (Suc 2)
     (testState [12, 50, 0xFF, 0xFF, 11, 0, 2, 3, 1, 3, 0, 5, 102, 108, 111, 97, 116]) =
   Inl AssertFailed"
proof -
  have "SK_DEBUG (testConfig True)" by (simp add: testConfig_def)
  moreover have "kConstructorScalarCast_Command \<in> set castFamily" by (simp add: castFamily_def)
  ultimately show ?thesis
    using single_argument_constructor [where n = 2, OF _ readU8_testState testCommandOf_12]
      scalarCast_example_type scalarCast_example_args
    by (metis length_Cons list.size(3) n_not_Suc_n numeral_2_eq_2 One_nat_def)
qed

text \<open>Without assertions the same input decodes: the first argument is used, the second
  is dropped.\<close>

theorem single_argument_constructor_counterexample:
  "expression (testConfig False) 3
     (testState [12, 50, 0xFF, 0xFF, 11, 0, 2, 3, 1, 3, 0, 5, 102, 108, 111, 97, 116]) =
   Inr (Some (ConstructorScalarCast (Some 2) (Some (BoolLiteral True))),
        testState [12, 50, 0xFF, 0xFF, 11, 0, 2, 3, 1, 3, 0, 5, 102, 108, 111, 97, 116]
        \<lparr>fIP := 11\<rparr>)"
  by code_simp

subsection \<open>Symbol tables: frame and refinement lemmas\<close>

lemma SkASSERT_Inr_iff: "SkASSERT cfg c s = Inr r \<longleftrightarrow> (r = ((), s) \<and> (SK_DEBUG cfg \<longrightarrow> c))"
  by (auto simp: SkASSERT_def fail_def return_def)






lemma repeat_length: "repeat k m s = Inr (xs, s') \<Longrightarrow> length xs = k"
  by (induction k arbitrary: s xs) (auto simp: bind_Inr_iff return_def)



lemma sameScopes_refl [simp]: "sameScopes s s"
  by (simp add: sameScopes_def)

















lemma currentTable_Inr: "currentTable s = Inr ((t, tab), s') \<Longrightarrow>
    s' = s \<and> fSymbolTable s = Some t \<and> t < length (tables s) \<and> tab = tables s ! t"
  by (auto simp: currentTable_def split: option.splits if_splits)


















lemma readU16_state: "readU16 s = Inr (x, s') \<Longrightarrow> s' = s\<lparr>fIP := fIP s + 2\<rparr>"
  by (auto simp: readU16_def split: if_splits)

lemma readString_state: "readString s = Inr (x, s') \<Longrightarrow> s' = s\<lparr>fIP := fIP s + 2\<rparr>"
  by (auto simp: readString_def bind_Inr_iff Let_def split: if_splits dest!: readU16_state)

lemma lookupInRoot_state: "lookupInRoot name s = Inr (x, s') \<Longrightarrow> s' = s"
  by (auto simp: lookupInRoot_def split: option.splits sum.splits)






lemma SkASSERT_False_debug: "SK_DEBUG cfg \<Longrightarrow> SkASSERT cfg False s = Inl AssertFailed"
  by (simp add: SkASSERT_def fail_def)

lemma symbol_unrecognized:
  assumes "SK_DEBUG cfg" and "readU8 s = Inr (kind, s1)"
    and "commandOf cfg kind \<notin> Some ` set symbolCommands"
  shows "symbol cfg (Suc n) s = Inl AssertFailed"
  using assms by (simp add: symbolCommands_def SkASSERT_False_debug)

lemma statement_unrecognized:
  assumes "SK_DEBUG cfg" and "readU8 s = Inr (kind, s1)"
    and "commandOf cfg kind \<notin> Some ` set statementCommands"
  shows "statement cfg (Suc n) s = Inl AssertFailed"
  using assms by (simp add: statementCommands_def SkASSERT_False_debug)

lemma expression_unrecognized:
  assumes "SK_DEBUG cfg" and "readU8 s = Inr (kind, s1)"
    and "commandOf cfg kind \<notin> Some ` set expressionCommands"
  shows "expression cfg (Suc n) s = Inl AssertFailed"
  using assms by (simp add: expressionCommands_def SkASSERT_False_debug)

lemma lookup_failure:
  assumes "SK_DEBUG cfg" and "readU16 s = Inr (kBuiltin_Symbol cfg, s2)"
    and "readString s2 = Inr (name, s3)" and "lookupInRoot name s3 = Inr (None, s4)"
  shows "visibleEntry cfg owned s = Inl AssertFailed"
    and "possiblyBuiltinSymbolRef cfg s = Inl AssertFailed"
  using assms
  by (simp_all add: visibleEntry_def possiblyBuiltinSymbolRef_def SkASSERT_False_debug)

subsection \<open>The symbol-table decode\<close>



lemma testCommandOf_51: "commandOf (testConfig d) 51 = Some kSymbolTable_Command"
  by (simp add: testConfig_def testCommandOf_def commandList_def)



subsection \<open>Indices of visible entries\<close>

lemma rootOf_no_bounds_error: "rootOf k ts a \<noteq> Inl OutOfBounds"
  by (induction k ts a rule: rootOf.induct) (auto split: option.splits)

lemma lookupInRoot_no_bounds_error: "lookupInRoot name s \<noteq> Inl OutOfBounds"
  by (auto simp: lookupInRoot_def rootOf_no_bounds_error split: option.splits sum.splits)

lemma readString_no_bounds_error: "readString s \<noteq> Inl OutOfBounds"
  by (auto simp: readString_def bind_def readU16_def Let_def split: sum.splits if_splits)

lemma addWithoutOwnership_no_bounds_error: "addWithoutOwnership cfg p s \<noteq> Inl OutOfBounds"
  by (auto simp: addWithoutOwnership_def bind_Inl_iff derefSymbol_def currentTable_def
      split: option.splits if_splits prod.splits)

lemma visibleEntry_no_bounds_error:
  assumes "readU16 s = Inr (index, s1)"
    and "index \<noteq> kBuiltin_Symbol cfg \<longrightarrow> unat index < length ownedSymbols"
  shows "visibleEntry cfg ownedSymbols s \<noteq> Inl OutOfBounds"
proof (cases "index = kBuiltin_Symbol cfg")
  case False
  with assms show ?thesis
    by (simp add: visibleEntry_def addWithoutOwnership_no_bounds_error)
next
  case True
  have "bind readString (\<lambda>name. bind (lookupInRoot name) (\<lambda>p.
       bind (SkASSERT cfg (p \<noteq> None)) (\<lambda>_. addWithoutOwnership cfg p))) s1 \<noteq> Inl OutOfBounds"
    by (auto simp: bind_Inl_iff readString_no_bounds_error lookupInRoot_no_bounds_error
        addWithoutOwnership_no_bounds_error SkASSERT_def fail_def return_def split: if_splits)
  with True assms(1) show ?thesis by (simp add: visibleEntry_def)
qed

lemma visiblePass_no_bounds_error:
  assumes "\<forall>tok \<in> set (visibleTokens cfg ownedSymbols k s).
             tok \<noteq> kBuiltin_Symbol cfg \<longrightarrow> unat tok < length ownedSymbols"
  shows "forN k (visibleEntry cfg ownedSymbols) s \<noteq> Inl OutOfBounds"
  using assms
proof (induction k arbitrary: s)
  case 0
  show ?case by (simp add: return_def)
next
  case (Suc k)
  show ?case
  proof (cases "readU16 s")
    case (Inl e)
    then have "visibleEntry cfg ownedSymbols s = Inl e" by (simp add: visibleEntry_def)
    moreover from Inl have "e = Underrun" by (auto simp: readU16_def split: if_splits)
    ultimately show ?thesis by simp
  next
    case (Inr a)
    obtain index s1 where a: "a = (index, s1)" by (cases a)
    from Suc.prems Inr a have b: "index \<noteq> kBuiltin_Symbol cfg \<longrightarrow> unat index < length ownedSymbols"
      by simp
    note ne = visibleEntry_no_bounds_error [OF Inr [unfolded a] b]
    show ?thesis
    proof (cases "visibleEntry cfg ownedSymbols s")
      case (Inl e)
      with ne show ?thesis by simp
    next
      case (Inr c)
      obtain u s' where c: "c = (u, s')" by (cases c)
      from Suc.prems \<open>readU16 s = Inr a\<close> a Inr c
      have "\<forall>tok \<in> set (visibleTokens cfg ownedSymbols k s').
             tok \<noteq> kBuiltin_Symbol cfg \<longrightarrow> unat tok < length ownedSymbols"
        by simp
      from Suc.IH [OF this] Inr c show ?thesis by simp
    qed
  qed
qed

lemma derefSymbol_Inr:
  "derefSymbol p s = Inr (v, s') \<Longrightarrow>
     \<exists>a. p = Some a \<and> a < length (symbols s) \<and> symbols s ! a = v \<and> s' = s"
  by (cases p) (auto simp: derefSymbol_def split: if_splits)

lemma addWithoutOwnership_effect:
  assumes "addWithoutOwnership cfg p sy = Inr (u, sz)"
  shows "\<exists>a t. p = Some a \<and> a < length (symbols sy) \<and> fSymbolTable sy = Some t
     \<and> t < length (tables sy)
     \<and> fBindings (tables sz ! t) =
         fBindings (tables sy ! t) @ [(symbol_name cfg (symbols sy) (symbols sy ! a), a)]
     \<and> fOwnedSymbols (tables sz ! t) = fOwnedSymbols (tables sy ! t)"
  using assms unfolding addWithoutOwnership_def
  by (auto simp: bind_Inr_iff dest!: currentTable_Inr derefSymbol_Inr)

lemma example_prefix:
  "readU8 (testState exampleTable) = Inr (51, testState exampleTable\<lparr>fIP := 1\<rparr>)"
  "readU8 (testState exampleTable\<lparr>fIP := 1\<rparr>) = Inr (0, testState exampleTable\<lparr>fIP := 2\<rparr>)"
  "readU16 (testState exampleTable\<lparr>fIP := 2\<rparr>) = Inr (1, testState exampleTable\<lparr>fIP := 4\<rparr>)"
  "pushSymbolTable ((0::byte) \<noteq> 0) (testState exampleTable\<lparr>fIP := 4\<rparr>) =
     Inr ((), testState exampleTable\<lparr>fIP := 4, fSymbolTable := Some 1,
            tables := tables testEnv @
              [\<lparr>fParent = Some 0, fBuiltin = False, fOwnedSymbols = [], fBindings = []\<rparr>]\<rparr>)"
  "repeat (unat (1 :: 16 word)) (symbol (testConfig True) 3)
     (testState exampleTable\<lparr>fIP := 4, fSymbolTable := Some 1,
            tables := tables testEnv @
              [\<lparr>fParent = Some 0, fBuiltin = False, fOwnedSymbols = [], fBindings = []\<rparr>]\<rparr>) =
     Inr ([Some 3], exampleOwned)"
  "readU16 exampleOwned = Inr (2, exampleOwned\<lparr>fIP := 18\<rparr>)"
  by code_simp+

lemma example_tokens:
  "visibleTokens (testConfig True) [Some 3] (unat (2 :: 16 word)) (exampleOwned\<lparr>fIP := 18\<rparr>) =
     [0, 65535]"
  by code_simp

lemma example_entry:
  "readU16 (exampleOwned\<lparr>fIP := 18\<rparr>) = Inr (0, exampleOwned\<lparr>fIP := 20\<rparr>)"
  "addWithoutOwnership (testConfig True) (Some 3) (exampleOwned\<lparr>fIP := 20\<rparr>) =
     Inr ((), exampleOwned\<lparr>fIP := 20,
       tables := tables testEnv @
         [\<lparr>fParent = Some 0, fBuiltin = False, fOwnedSymbols = [3],
           fBindings = [(''x'', 3)]\<rparr>]\<rparr>)"
  by code_simp+

lemma repeat_nth:
  "repeat k m s = Inr (xs, s') \<Longrightarrow> i < k \<Longrightarrow>
     \<exists>sa sb. repeat i m s = Inr (take i xs, sa) \<and> m sa = Inr (xs ! i, sb)"
proof (induction k arbitrary: s xs i)
  case 0
  then show ?case by simp
next
  case (Suc k)
  from Suc.prems(1) obtain x s1 ys where
    a: "m s = Inr (x, s1)" "repeat k m s1 = Inr (ys, s')" "xs = x # ys"
    by (auto simp: bind_Inr_iff return_def)
  show ?case
  proof (cases i)
    case 0
    with a show ?thesis by (simp add: return_def)
  next
    case (Suc j)
    with Suc.prems(2) have "j < k" by simp
    from Suc.IH [OF a(2) this] obtain sa sb where
      "repeat j m s1 = Inr (take j ys, sa)" "m sa = Inr (ys ! j, sb)" by blast
    with a Suc show ?thesis by (simp add: bind_def return_def)
  qed
qed

lemma example_symbol:
  "symbol (testConfig True) 3
     (testState exampleTable\<lparr>fIP := 4, fSymbolTable := Some 1,
            tables := tables testEnv @
              [\<lparr>fParent = Some 0, fBuiltin = False, fOwnedSymbols = [], fBindings = []\<rparr>]\<rparr>) =
     Inr (Some 3, exampleOwned)"
  "symbolTable (testConfig True) 3 (testState exampleTable) =
     Inr (Some 1, exampleOwned\<lparr>fIP := 24,
       tables := tables testEnv @
         [\<lparr>fParent = Some 0, fBuiltin = False, fOwnedSymbols = [3],
           fBindings = [(''x'', 3), (''float'', 2)]\<rparr>]\<rparr>)"
  by code_simp+

text \<open>
  C10. In the symbol-table decode the loop over the visible entries indexes the array of
  owned symbols, as the owned pass filled it, with the token it read. The array has as many
  elements as the owned count, and its element at a position is what the call of \<open>symbol\<close>
  at that position of the owned pass returned. When every token the visible pass reads is
  the builtin sentinel or below the owned count, the decode does not end in the
  out-of-bounds outcome, an entry whose token is not the sentinel does what binding the
  owned symbol at that position does, and when it returns, the current scope has one more
  binding, of that symbol under its name, and the same owned set.
\<close>

theorem visible_index_in_bounds:
  assumes "readU8 s = Inr (command, s1)"
    and "commandOf cfg command \<noteq> Some kVoid_Command"
    and "SK_DEBUG cfg \<longrightarrow> commandOf cfg command = Some kSymbolTable_Command"
    and "readU8 s1 = Inr (builtin, s2)"
    and "readU16 s2 = Inr (ownedCount, s3)"
    and "pushSymbolTable (builtin \<noteq> 0) s3 = Inr ((), s4)"
    and "repeat (unat ownedCount) (symbol cfg n) s4 = Inr (ownedSymbols, s5)"
    and "readU16 s5 = Inr (symbolCount, s6)"
    and "\<forall>tok \<in> set (visibleTokens cfg ownedSymbols (unat symbolCount) s6).
           tok \<noteq> kBuiltin_Symbol cfg \<longrightarrow> unat tok < unat ownedCount"
  shows "length ownedSymbols = unat ownedCount
     \<and> (\<forall>i < unat ownedCount. \<exists>sa sb.
           repeat i (symbol cfg n) s4 = Inr (take i ownedSymbols, sa)
         \<and> symbol cfg n sa = Inr (ownedSymbols ! i, sb))
     \<and> symbolTable cfg n s =
         bind (forN (unat symbolCount) (visibleEntry cfg ownedSymbols)) (\<lambda>_. gets fSymbolTable) s6
     \<and> symbolTable cfg n s \<noteq> Inl OutOfBounds
     \<and> (\<forall>sx index sy. readU16 sx = Inr (index, sy) \<and> index \<noteq> kBuiltin_Symbol cfg
            \<and> unat index < unat ownedCount \<longrightarrow>
          visibleEntry cfg ownedSymbols sx =
            addWithoutOwnership cfg (ownedSymbols ! unat index) sy)
     \<and> (\<forall>sx index sy u sz. readU16 sx = Inr (index, sy) \<and> index \<noteq> kBuiltin_Symbol cfg
            \<and> unat index < unat ownedCount
            \<and> visibleEntry cfg ownedSymbols sx = Inr (u, sz) \<longrightarrow>
          (\<exists>a t. ownedSymbols ! unat index = Some a \<and> fSymbolTable sy = Some t
             \<and> fBindings (tables sz ! t) =
                 fBindings (tables sy ! t) @ [(symbol_name cfg (symbols sy) (symbols sy ! a), a)]
             \<and> fOwnedSymbols (tables sz ! t) = fOwnedSymbols (tables sy ! t)))"
proof -
  have len: "length ownedSymbols = unat ownedCount"
    using assms(7) by (rule repeat_length)
  have nth: "\<forall>i < unat ownedCount. \<exists>sa sb.
           repeat i (symbol cfg n) s4 = Inr (take i ownedSymbols, sa)
         \<and> symbol cfg n sa = Inr (ownedSymbols ! i, sb)"
    using repeat_nth [OF assms(7)] by blast
  have a: "SkASSERT cfg (commandOf cfg command = Some kSymbolTable_Command) s1 = Inr ((), s1)"
    using assms(3) by (simp add: SkASSERT_Inr_iff)
  have eq: "symbolTable cfg n s =
      bind (forN (unat symbolCount) (visibleEntry cfg ownedSymbols)) (\<lambda>_. gets fSymbolTable) s6"
    unfolding symbolTable_def using assms(1,2,4,5,6,7,8) a by simp
  have "forN (unat symbolCount) (visibleEntry cfg ownedSymbols) s6 \<noteq> Inl OutOfBounds"
    using assms(9) unfolding len [symmetric] by (rule visiblePass_no_bounds_error)
  then have ne: "symbolTable cfg n s \<noteq> Inl OutOfBounds"
    unfolding eq by (auto simp: bind_Inl_iff gets_def)
  have entry: "visibleEntry cfg ownedSymbols sx =
      addWithoutOwnership cfg (ownedSymbols ! unat index) sy"
    if "readU16 sx = Inr (index, sy)" "index \<noteq> kBuiltin_Symbol cfg" "unat index < unat ownedCount"
    for sx index sy
    using that len by (simp add: visibleEntry_def)
  have effect: "\<exists>a t. ownedSymbols ! unat index = Some a \<and> fSymbolTable sy = Some t
             \<and> fBindings (tables sz ! t) =
                 fBindings (tables sy ! t) @ [(symbol_name cfg (symbols sy) (symbols sy ! a), a)]
             \<and> fOwnedSymbols (tables sz ! t) = fOwnedSymbols (tables sy ! t)"
    if "readU16 sx = Inr (index, sy)" "index \<noteq> kBuiltin_Symbol cfg" "unat index < unat ownedCount"
      "visibleEntry cfg ownedSymbols sx = Inr (u, sz)"
    for sx index sy u sz
    using addWithoutOwnership_effect [of cfg "ownedSymbols ! unat index" sy u sz]
      entry [OF that(1,2,3)] that(4) by auto
  from entry have entry': "\<forall>sx index sy. readU16 sx = Inr (index, sy)
            \<and> index \<noteq> kBuiltin_Symbol cfg \<and> unat index < unat ownedCount \<longrightarrow>
          visibleEntry cfg ownedSymbols sx =
            addWithoutOwnership cfg (ownedSymbols ! unat index) sy"
    by blast
  from effect have effect': "\<forall>sx index sy u sz. readU16 sx = Inr (index, sy)
            \<and> index \<noteq> kBuiltin_Symbol cfg \<and> unat index < unat ownedCount
            \<and> visibleEntry cfg ownedSymbols sx = Inr (u, sz) \<longrightarrow>
          (\<exists>a t. ownedSymbols ! unat index = Some a \<and> fSymbolTable sy = Some t
             \<and> fBindings (tables sz ! t) =
                 fBindings (tables sy ! t) @ [(symbol_name cfg (symbols sy) (symbols sy ! a), a)]
             \<and> fOwnedSymbols (tables sz ! t) = fOwnedSymbols (tables sy ! t))"
    by blast
  from len nth eq ne entry' effect' show ?thesis by (intro conjI)
qed

text \<open>The table \<open>exampleTable\<close>: one owned symbol at address 3, and the visible tokens 0
  and the sentinel. The first entry binds the owned symbol 0 under its name \<open>x\<close>.\<close>

theorem visible_index_in_bounds_witness:
  "symbolTable (testConfig True) 3 (testState exampleTable) \<noteq> Inl OutOfBounds
   \<and> symbolTable (testConfig True) 3 (testState exampleTable) =
       Inr (Some 1, exampleOwned\<lparr>fIP := 24,
         tables := tables testEnv @
           [\<lparr>fParent = Some 0, fBuiltin = False, fOwnedSymbols = [3],
             fBindings = [(''x'', 3), (''float'', 2)]\<rparr>]\<rparr>)
   \<and> symbol (testConfig True) 3
       (testState exampleTable\<lparr>fIP := 4, fSymbolTable := Some 1,
            tables := tables testEnv @
              [\<lparr>fParent = Some 0, fBuiltin = False, fOwnedSymbols = [], fBindings = []\<rparr>]\<rparr>) =
       Inr ([Some 3] ! unat (0 :: 16 word), exampleOwned)
   \<and> visibleEntry (testConfig True) [Some 3] (exampleOwned\<lparr>fIP := 18\<rparr>) =
       addWithoutOwnership (testConfig True) ([Some 3] ! unat (0 :: 16 word))
         (exampleOwned\<lparr>fIP := 20\<rparr>)
   \<and> addWithoutOwnership (testConfig True) (Some 3) (exampleOwned\<lparr>fIP := 20\<rparr>) =
       Inr ((), exampleOwned\<lparr>fIP := 20,
         tables := tables testEnv @
           [\<lparr>fParent = Some 0, fBuiltin = False, fOwnedSymbols = [3],
             fBindings = [(''x'', 3)]\<rparr>]\<rparr>)"
proof -
  have v: "commandOf (testConfig True) 51 \<noteq> Some kVoid_Command"
    by (simp add: testCommandOf_51)
  have d: "SK_DEBUG (testConfig True) \<longrightarrow>
      commandOf (testConfig True) 51 = Some kSymbolTable_Command"
    by (simp add: testCommandOf_51)
  have k: "\<forall>tok \<in> set (visibleTokens (testConfig True) [Some 3] (unat (2 :: 16 word))
        (exampleOwned\<lparr>fIP := 18\<rparr>)).
      tok \<noteq> kBuiltin_Symbol (testConfig True) \<longrightarrow> unat tok < unat (1 :: 16 word)"
    unfolding example_tokens by (simp add: testConfig_def)
  note T = visible_index_in_bounds [OF example_prefix(1) v d example_prefix(2,3,4,5,6) k]
  note ne = T [THEN conjunct2, THEN conjunct2, THEN conjunct2, THEN conjunct1]
  note en = T [THEN conjunct2, THEN conjunct2, THEN conjunct2, THEN conjunct2, THEN conjunct1,
      rule_format]
  have "(0 :: 16 word) \<noteq> kBuiltin_Symbol (testConfig True)" by (simp add: testConfig_def)
  moreover have "unat (0 :: 16 word) < unat (1 :: 16 word)" by simp
  ultimately have e: "visibleEntry (testConfig True) [Some 3] (exampleOwned\<lparr>fIP := 18\<rparr>) =
       addWithoutOwnership (testConfig True) ([Some 3] ! unat (0 :: 16 word))
         (exampleOwned\<lparr>fIP := 20\<rparr>)"
    using en example_entry(1) by blast
  have s: "symbol (testConfig True) 3
       (testState exampleTable\<lparr>fIP := 4, fSymbolTable := Some 1,
            tables := tables testEnv @
              [\<lparr>fParent = Some 0, fBuiltin = False, fOwnedSymbols = [], fBindings = []\<rparr>]\<rparr>) =
       Inr ([Some 3] ! unat (0 :: 16 word), exampleOwned)"
    using example_symbol(1) by simp
  from ne example_symbol(2) s e example_entry(2) show ?thesis by (intro conjI)
qed

subsection \<open>Unrecognized tags and unresolved builtin names\<close>

lemma SkASSERT_release: "\<not> SK_DEBUG cfg \<Longrightarrow> SkASSERT cfg c s = Inr ((), s)"
  by (simp add: SkASSERT_def return_def)

lemma symbol_unrecognized_release:
  assumes "\<not> SK_DEBUG cfg" and "readU8 s = Inr (kind, s1)"
    and "commandOf cfg kind \<notin> Some ` set symbolCommands"
  shows "symbol cfg (Suc n) s = Inr (None, s1)"
  using assms by (simp add: symbolCommands_def SkASSERT_release return_def)

lemma statement_unrecognized_release:
  assumes "\<not> SK_DEBUG cfg" and "readU8 s = Inr (kind, s1)"
    and "commandOf cfg kind \<notin> Some ` set statementCommands"
  shows "statement cfg (Suc n) s = Inr (None, s1)"
  using assms by (simp add: statementCommands_def SkASSERT_release return_def)

lemma expression_unrecognized_release:
  assumes "\<not> SK_DEBUG cfg" and "readU8 s = Inr (kind, s1)"
    and "commandOf cfg kind \<notin> Some ` set expressionCommands"
  shows "expression cfg (Suc n) s = Inr (None, s1)"
  using assms by (simp add: expressionCommands_def SkASSERT_release return_def)

text \<open>
  C4, as the code has it. In a build with assertions (\<open>SK_DEBUG\<close>), a tag that
  \<open>symbol\<close>, \<open>statement\<close> or \<open>expression\<close> has no case for, and a builtin name that
  the outermost ancestor scope does not bind, stop the decode at once with a failed
  assertion: there is no result and no state. In a build without assertions each of the
  three decoders returns a null node for such a tag, having read the tag byte and nothing
  else, and the decode goes on.
\<close>

theorem unrecognized_input_is_fatal:
  "(SK_DEBUG cfg \<longrightarrow>
       (readU8 s = Inr (kind, s1) \<and> commandOf cfg kind \<notin> Some ` set symbolCommands \<longrightarrow>
            symbol cfg (Suc n) s = Inl AssertFailed)
     \<and> (readU8 s = Inr (kind, s1) \<and> commandOf cfg kind \<notin> Some ` set statementCommands \<longrightarrow>
            statement cfg (Suc n) s = Inl AssertFailed)
     \<and> (readU8 s = Inr (kind, s1) \<and> commandOf cfg kind \<notin> Some ` set expressionCommands \<longrightarrow>
            expression cfg (Suc n) s = Inl AssertFailed)
     \<and> (readU16 s = Inr (kBuiltin_Symbol cfg, s2) \<and> readString s2 = Inr (name, s3)
          \<and> lookupInRoot name s3 = Inr (None, s4) \<longrightarrow>
            visibleEntry cfg owned s = Inl AssertFailed
            \<and> possiblyBuiltinSymbolRef cfg s = Inl AssertFailed))
   \<and> (\<not> SK_DEBUG cfg \<longrightarrow>
       (readU8 s = Inr (kind, s1) \<and> commandOf cfg kind \<notin> Some ` set symbolCommands \<longrightarrow>
            symbol cfg (Suc n) s = Inr (None, s1))
     \<and> (readU8 s = Inr (kind, s1) \<and> commandOf cfg kind \<notin> Some ` set statementCommands \<longrightarrow>
            statement cfg (Suc n) s = Inr (None, s1))
     \<and> (readU8 s = Inr (kind, s1) \<and> commandOf cfg kind \<notin> Some ` set expressionCommands \<longrightarrow>
            expression cfg (Suc n) s = Inr (None, s1)))"
proof (intro conjI impI)
  assume d: "SK_DEBUG cfg"
  {
    assume "readU8 s = Inr (kind, s1) \<and> commandOf cfg kind \<notin> Some ` set symbolCommands"
    then show "symbol cfg (Suc n) s = Inl AssertFailed"
      using symbol_unrecognized [OF d] by blast
  next
    assume "readU8 s = Inr (kind, s1) \<and> commandOf cfg kind \<notin> Some ` set statementCommands"
    then show "statement cfg (Suc n) s = Inl AssertFailed"
      using statement_unrecognized [OF d] by blast
  next
    assume "readU8 s = Inr (kind, s1) \<and> commandOf cfg kind \<notin> Some ` set expressionCommands"
    then show "expression cfg (Suc n) s = Inl AssertFailed"
      using expression_unrecognized [OF d] by blast
  next
    assume a: "readU16 s = Inr (kBuiltin_Symbol cfg, s2) \<and> readString s2 = Inr (name, s3)
          \<and> lookupInRoot name s3 = Inr (None, s4)"
    then show "visibleEntry cfg owned s = Inl AssertFailed"
      using lookup_failure(1) [OF d] by blast
    from a show "possiblyBuiltinSymbolRef cfg s = Inl AssertFailed"
      using lookup_failure(2) [OF d] by blast
  }
next
  assume r: "\<not> SK_DEBUG cfg"
  {
    assume "readU8 s = Inr (kind, s1) \<and> commandOf cfg kind \<notin> Some ` set symbolCommands"
    then show "symbol cfg (Suc n) s = Inr (None, s1)"
      using symbol_unrecognized_release [OF r] by blast
  next
    assume "readU8 s = Inr (kind, s1) \<and> commandOf cfg kind \<notin> Some ` set statementCommands"
    then show "statement cfg (Suc n) s = Inr (None, s1)"
      using statement_unrecognized_release [OF r] by blast
  next
    assume "readU8 s = Inr (kind, s1) \<and> commandOf cfg kind \<notin> Some ` set expressionCommands"
    then show "expression cfg (Suc n) s = Inr (None, s1)"
      using expression_unrecognized_release [OF r] by blast
  }
qed

lemma tag_200: "commandOf (testConfig d) 200 = None"
  by (simp add: testConfig_def testCommandOf_def commandList_def)

lemma lookup_failure_example:
  "readU16 (testState [0xFF, 0xFF, 4, 0, 1, 120]) =
     Inr (kBuiltin_Symbol (testConfig True), testState [0xFF, 0xFF, 4, 0, 1, 120]\<lparr>fIP := 2\<rparr>)"
  "readString (testState [0xFF, 0xFF, 4, 0, 1, 120]\<lparr>fIP := 2\<rparr>) =
     Inr (''x'', testState [0xFF, 0xFF, 4, 0, 1, 120]\<lparr>fIP := 4\<rparr>)"
  "lookupInRoot ''x'' (testState [0xFF, 0xFF, 4, 0, 1, 120]\<lparr>fIP := 4\<rparr>) =
     Inr (None, testState [0xFF, 0xFF, 4, 0, 1, 120]\<lparr>fIP := 4\<rparr>)"
  by code_simp+

text \<open>The tag 200 denotes no command, and the root scope binds no \<open>x\<close>: with
  assertions the decode stops, without them the three decoders return null.\<close>

theorem unrecognized_input_is_fatal_witness:
  "symbol (testConfig True) (Suc 0) (testState [200]) = Inl AssertFailed
   \<and> statement (testConfig True) (Suc 0) (testState [200]) = Inl AssertFailed
   \<and> expression (testConfig True) (Suc 0) (testState [200]) = Inl AssertFailed
   \<and> visibleEntry (testConfig True) [] (testState [0xFF, 0xFF, 4, 0, 1, 120]) = Inl AssertFailed
   \<and> symbol (testConfig False) (Suc 0) (testState [200]) =
       Inr (None, testState [200]\<lparr>fIP := 1\<rparr>)
   \<and> statement (testConfig False) (Suc 0) (testState [200]) =
       Inr (None, testState [200]\<lparr>fIP := 1\<rparr>)
   \<and> expression (testConfig False) (Suc 0) (testState [200]) =
       Inr (None, testState [200]\<lparr>fIP := 1\<rparr>)"
proof -
  have d: "SK_DEBUG (testConfig True)" by (simp add: testConfig_def)
  have r: "\<not> SK_DEBUG (testConfig False)" by (simp add: testConfig_def)
  note T = unrecognized_input_is_fatal [THEN conjunct1, THEN mp, OF d]
  note R = unrecognized_input_is_fatal [THEN conjunct2, THEN mp, OF r]
  have n: "commandOf (testConfig b) 200 \<notin> Some ` X" for X b by (simp add: tag_200)
  have 1: "symbol (testConfig True) (Suc 0) (testState [200]) = Inl AssertFailed"
    by (rule T [THEN conjunct1, THEN mp, OF conjI [OF readU8_testState n]])
  have 2: "statement (testConfig True) (Suc 0) (testState [200]) = Inl AssertFailed"
    by (rule T [THEN conjunct2, THEN conjunct1, THEN mp, OF conjI [OF readU8_testState n]])
  have 3: "expression (testConfig True) (Suc 0) (testState [200]) = Inl AssertFailed"
    by (rule T [THEN conjunct2, THEN conjunct2, THEN conjunct1, THEN mp,
          OF conjI [OF readU8_testState n]])
  have 4: "visibleEntry (testConfig True) [] (testState [0xFF, 0xFF, 4, 0, 1, 120]) =
      Inl AssertFailed"
    by (rule T [THEN conjunct2, THEN conjunct2, THEN conjunct2, THEN mp, THEN conjunct1,
          OF conjI [OF lookup_failure_example(1) conjI [OF lookup_failure_example(2,3)]]])
  have 5: "symbol (testConfig False) (Suc 0) (testState [200]) =
      Inr (None, testState [200]\<lparr>fIP := 1\<rparr>)"
    by (rule R [THEN conjunct1, THEN mp, OF conjI [OF readU8_testState n]])
  have 6: "statement (testConfig False) (Suc 0) (testState [200]) =
      Inr (None, testState [200]\<lparr>fIP := 1\<rparr>)"
    by (rule R [THEN conjunct2, THEN conjunct1, THEN mp, OF conjI [OF readU8_testState n]])
  have 7: "expression (testConfig False) (Suc 0) (testState [200]) =
      Inr (None, testState [200]\<lparr>fIP := 1\<rparr>)"
    by (rule R [THEN conjunct2, THEN conjunct2, THEN mp, OF conjI [OF readU8_testState n]])
  from 1 2 3 4 5 6 7 show ?thesis by (intro conjI)
qed

text \<open>Without assertions the expression decoder returns a null expression for the same
  tag, and the decode goes on.\<close>

theorem unrecognized_input_is_fatal_counterexample:
  "expression (testConfig False) (Suc 0) (testState [200]) =
     Inr (None, testState [200]\<lparr>fIP := 1\<rparr>)"
  by code_simp

subsection \<open>The current scope and the tables across the element list\<close>






















lemma extendsTables_refl [simp]: "extendsTables s s"
  by (simp add: extendsTables_def)





















subsection \<open>The buffer and the cursor; the program and the session\<close>

lemma sameBuffer_refl [simp]: "sameBuffer s s"
  by (simp add: sameBuffer_def)

lemma sameBuffer_trans: "sameBuffer s s1 \<Longrightarrow> sameBuffer s1 s2 \<Longrightarrow> sameBuffer s s2"
  by (simp add: sameBuffer_def)

lemma advancesD: "advances m \<Longrightarrow> m s = Inr (r, s') \<Longrightarrow> sameBuffer s s'"
  by (auto simp: advances_def)

lemma advances_bind [intro!]:
  "advances m \<Longrightarrow> (\<And>x. advances (f x)) \<Longrightarrow> advances (bind m f)"
  unfolding advances_def bind_Inr_iff by (blast intro: sameBuffer_trans)

lemma advances_return [intro!, simp]: "advances (return x)"
  by (simp add: advances_def return_def)

lemma advances_fail [intro!, simp]: "advances (fail e)"
  by (simp add: advances_def fail_def)

lemma advances_if [intro!]: "advances a \<Longrightarrow> advances b \<Longrightarrow> advances (if c then a else b)"
  by simp

lemma advances_gets [intro!, simp]: "advances (gets f)"
  by (simp add: advances_def gets_def)

lemma advances_modify:
  "(\<And>s. fSrc (f s) = fSrc s \<and> fIP s \<le> fIP (f s)) \<Longrightarrow> advances (modify f)"
  by (auto simp: advances_def modify_def sameBuffer_def)

lemma advances_SkASSERT [intro!, simp]: "advances (SkASSERT cfg c)"
  by (simp add: SkASSERT_def)

lemma advances_readU8 [intro!, simp]: "advances readU8"
  by (auto simp: advances_def readU8_def sameBuffer_def split: if_splits)

lemma advances_readU16 [intro!, simp]: "advances readU16"
  by (auto simp: advances_def readU16_def sameBuffer_def split: if_splits)

lemma advances_readU32 [intro!, simp]: "advances readU32"
  by (auto simp: advances_def readU32_def sameBuffer_def split: if_splits)

lemma advances_readS [intro!, simp]: "advances readS8" "advances readS16" "advances readS32"
  by (simp_all add: readS8_def readS16_def readS32_def)

lemma advances_readString [intro!, simp]: "advances readString"
  by (auto simp: advances_def sameBuffer_def dest!: readString_state)

lemma advances_derefSymbol [intro!, simp]: "advances (derefSymbol p)"
  by (auto simp: advances_def dest: derefSymbol_state)

lemma advances_currentTable [intro!, simp]: "advances currentTable"
  by (auto simp: advances_def dest!: currentTable_Inr)

lemma advances_isBuiltin [intro!, simp]: "advances isBuiltin"
  unfolding isBuiltin_def by (auto simp: split_def)

lemma advances_takeOwnershipOfSymbol [intro!, simp]: "advances (takeOwnershipOfSymbol x)"
  unfolding advances_def takeOwnershipOfSymbol_def
  by (auto simp: bind_Inr_iff Let_def sameBuffer_def dest!: currentTable_Inr)

lemma advances_addWithoutOwnership [intro!, simp]: "advances (addWithoutOwnership cfg p)"
  unfolding advances_def addWithoutOwnership_def
  by (auto simp: bind_Inr_iff Let_def sameBuffer_def dest!: currentTable_Inr derefSymbol_state)

lemma advances_lookupInRoot [intro!, simp]: "advances (lookupInRoot name)"
  by (auto simp: advances_def dest!: lookupInRoot_state)

lemma advances_addSymbol [intro!, simp]: "advances (addSymbol i p)"
  unfolding addSymbol_def by (rule advances_modify) simp

lemma advances_symbolRef [intro!, simp]: "advances (symbolRef cfg)"
  unfolding symbolRef_def by auto

lemma advances_possiblyBuiltinSymbolRef [intro!, simp]: "advances (possiblyBuiltinSymbolRef cfg)"
  unfolding possiblyBuiltinSymbolRef_def by auto

lemma advances_modifiersPool_add [intro!, simp]: "advances (modifiersPool_add m)"
  by (auto simp: advances_def modifiersPool_add_def sameBuffer_def split: option.splits if_splits)

lemma advances_layout [intro!, simp]: "advances (layout cfg)"
  unfolding layout_def by auto

lemma advances_modifiers [intro!, simp]: "advances (modifiers cfg)"
  unfolding modifiers_def by auto

lemma advances_repeat [intro!]: "advances m \<Longrightarrow> advances (repeat k m)"
  by (induction k) auto

lemma advances_forN [intro!]: "advances m \<Longrightarrow> advances (forN k m)"
  by (induction k) auto

lemma advances_type_step: "advances (symbol cfg n) \<Longrightarrow> advances (type cfg n)"
  by (auto simp: type.simps)

lemmas advances_basic =
  advances_bind advances_if advances_repeat advances_forN
  advances_readU8 advances_readU16 advances_readU32 advances_readS advances_derefSymbol
  advances_takeOwnershipOfSymbol advances_addSymbol advances_return advances_gets
  advances_modifiers advances_readString advances_modifiersPool_add
  advances_isBuiltin advances_symbolRef advances_possiblyBuiltinSymbolRef
  advances_SkASSERT advances_fail

lemma advances_symbol [intro!, simp]: "advances (symbol cfg n)"
proof (induction n)
  case 0
  show ?case by simp
next
  case (Suc n)
  note ty = advances_type_step [OF Suc]
  show ?case
    unfolding symbol.simps by (intro advances_basic Suc ty)
qed

lemma advances_type [intro!, simp]: "advances (type cfg n)"
  by (rule advances_type_step) simp

lemma advances_visibleEntry [intro!, simp]: "advances (visibleEntry cfg owned)"
  unfolding visibleEntry_def by auto

lemma advances_pushSymbolTable [intro!, simp]: "advances (pushSymbolTable b)"
  unfolding pushSymbolTable_def by (rule advances_modify) simp

lemma advances_symbolTable [intro!, simp]: "advances (symbolTable cfg n)"
  unfolding symbolTable_def
  by (intro advances_basic advances_pushSymbolTable advances_symbol advances_visibleEntry)

lemma advances_Auto [intro!]:
  "advances body \<Longrightarrow> advances (AutoRehydratorSymbolTable cfg n body)"
  unfolding AutoRehydratorSymbolTable_def AutoRehydratorSymbolTable_ctor_def
    AutoRehydratorSymbolTable_dtor_def
  by (intro advances_basic advances_symbolTable advances_modify) simp_all

lemma advances_singleArgument [intro!, simp]: "advances (singleArgument cfg args)"
  unfolding singleArgument_def by auto

lemma advances_expressionArray_step:
  "advances (expression cfg n) \<Longrightarrow> advances (expressionArray cfg n)"
  by (auto simp: expressionArray.simps)

lemma advances_statement_expression:
  "advances (statement cfg n) \<and> advances (expression cfg n)"
proof (induction n)
  case 0
  show ?case by simp
next
  case (Suc n)
  then have st: "advances (statement cfg n)" and ex: "advances (expression cfg n)" by simp_all
  note ea = advances_expressionArray_step [OF ex]
  have "advances (statement cfg (Suc n))"
    unfolding statement.simps
    by (intro advances_basic advances_Auto advances_type advances_singleArgument st ex ea)
  moreover have "advances (expression cfg (Suc n))"
    unfolding expression.simps
    by (intro advances_basic advances_Auto advances_type advances_singleArgument st ex ea)
  ultimately show ?case by simp
qed

lemma advances_statement [intro!, simp]: "advances (statement cfg n)"
  and advances_expression [intro!, simp]: "advances (expression cfg n)"
  using advances_statement_expression by simp_all

lemma advances_assertIs [intro!, simp]: "advances (assertIs cfg P p)"
  unfolding assertIs_def by auto

lemma advances_assertNonNullIs [intro!, simp]: "advances (assertNonNullIs cfg P p)"
  unfolding assertNonNullIs_def by auto

lemma advances_setDefinition [intro!, simp]: "advances (setDefinition d e)"
  unfolding setDefinition_def by (intro advances_basic advances_modify) simp

lemma advances_case_option:
  "advances a \<Longrightarrow> (\<And>x. advances (b x)) \<Longrightarrow> advances (case v of None \<Rightarrow> a | Some x \<Rightarrow> b x)"
  by (cases v) simp_all

lemma advances_element [intro!, simp]: "advances (element cfg n)"
proof (induction n)
  case 0
  show ?case by simp
next
  case (Suc n)
  show ?case
    unfolding element.simps
    by (intro advances_basic advances_statement advances_symbol advances_assertIs
        advances_assertNonNullIs advances_setDefinition advances_case_option Suc)
qed

lemma advances_elementsLoop [intro!, simp]: "advances (elementsLoop cfg n k)"
proof (induction k)
  case 0
  show ?case by simp
next
  case (Suc k)
  show ?case
    unfolding elementsLoop.simps
    by (intro advances_basic advances_element advances_case_option Suc)
qed

lemma advances_elements [intro!, simp]: "advances (elements cfg n)"
  unfolding elements_def by auto

lemma advances_external [intro!, simp]: "advances (external f)"
  unfolding external_def by (rule advances_modify) simp

lemma advances_takeMemoryPool [intro!, simp]: "advances takeMemoryPool"
  by (auto simp: advances_def takeMemoryPool_def sameBuffer_def split: option.splits)

lemma advances_newModifiersPool [intro!, simp]: "advances newModifiersPool"
  by (auto simp: advances_def newModifiersPool_def sameBuffer_def)

lemma advances_popSymbolTable [intro!, simp]: "advances popSymbolTable"
  unfolding popSymbolTable_def
  by (intro advances_basic advances_currentTable) (auto simp: split_def intro!: advances_modify)

lemma advances_programFinish [intro!, simp]:
  "advances (programFinish cfg conf oldConfig oldModifiersPool mods elems)"
  unfolding programFinish_def
  by (intro advances_basic advances_modify advances_takeMemoryPool advances_popSymbolTable
      advances_external) simp_all

lemma advances_program [intro!, simp]: "advances (program cfg n)"
  unfolding program_def Let_def
  by (intro advances_basic advances_modify advances_newModifiersPool advances_external
      advances_symbolTable advances_elements advances_programFinish) simp_all

lemma Rehydrator_Inr:
  assumes "Rehydrator cfg env src syms = Inr s"
  shows "3 < length src \<and> fSrc s = src \<and> fStringStart s = 2
     \<and> fIP s = 4 + unat (word_cat (src ! 3) (src ! 2) :: 16 word)
     \<and> (SK_DEBUG cfg \<longrightarrow> (word_cat (src ! 1) (src ! 0) :: 16 word) = kVersion cfg)"
proof -
  define s0 where "s0 = env\<lparr>fSrc := src, fIP := 0, fStringStart := 0,
                                  fSymbolTable := syms, fSymbols := []\<rparr>"
  from assms obtain s1 version s2 s3 len s4 where
    a: "(if SK_DEBUG cfg then bind isBuiltin (\<lambda>b. SkASSERT cfg b) else return ()) s0 = Inr ((), s1)"
      "readU16 s1 = Inr (version, s2)" "SK_DEBUG cfg \<longrightarrow> version = kVersion cfg"
      "s3 = s2\<lparr>fStringStart := fIP s2\<rparr>" "readU16 s3 = Inr (len, s4)"
      "s = s4\<lparr>fIP := fIP s4 + unat len\<rparr>"
    unfolding Rehydrator_def s0_def
    by (auto simp: bind_Inr_iff modify_def SkASSERT_Inr_iff split: sum.splits)
  have "advances (if SK_DEBUG cfg then bind isBuiltin (\<lambda>b. SkASSERT cfg b) else return ())"
    by auto
  from advancesD [OF this a(1)] have f1: "fSrc s1 = src" by (simp add: sameBuffer_def s0_def)
  have ip1: "fIP s1 = 0"
    using a(1) by (auto simp: isBuiltin_def bind_Inr_iff SkASSERT_Inr_iff return_def s0_def
        split: if_splits dest!: currentTable_Inr)
  from a(2) f1 ip1 have s2: "s2 = s1\<lparr>fIP := 2\<rparr>" "1 < length src"
      "version = word_cat (src ! 1) (src ! 0)"
    by (auto simp: readU16_def split: if_splits)
  from a(5) a(4) s2 f1 have s4: "s4 = s3\<lparr>fIP := 4\<rparr>" "3 < length src"
      "len = word_cat (src ! 3) (src ! 2)"
    by (auto simp: readU16_def numeral_3_eq_3 numeral_2_eq_2 split: if_splits)
  show ?thesis
    using a(3,4,6) s2 s4 f1 by simp
qed

lemma Rehydrator_version_mismatch:
  assumes "SK_DEBUG cfg" and "syms = Some t" and "t < length (tables env)"
    and "fBuiltin (tables env ! t)" and "1 < length src"
    and "(word_cat (src ! 1) (src ! 0) :: 16 word) \<noteq> kVersion cfg"
  shows "Rehydrator cfg env src syms = Inl AssertFailed"
  using assms
  by (simp add: Rehydrator_def bind_def modify_def SkASSERT_def return_def fail_def
      isBuiltin_def currentTable_def readU16_def)











text \<open>
  C8, as the code has it. When the constructor returns, it has read the 16-bit version and
  the 16-bit length of the string data from the first four bytes, the strings start at
  offset 2, and the cursor stands behind the string data, at 4 plus the length. In a build
  with assertions (\<open>SK_DEBUG\<close>) the version it read is the expected one, and any other
  version makes the constructor fail.
\<close>

theorem constructor_header:
  "(Rehydrator cfg env src syms = Inr s \<longrightarrow>
      3 < length src \<and> fSrc s = src \<and> fStringStart s = 2
      \<and> fIP s = 4 + unat (word_cat (src ! 3) (src ! 2) :: 16 word)
      \<and> (SK_DEBUG cfg \<longrightarrow> (word_cat (src ! 1) (src ! 0) :: 16 word) = kVersion cfg))
   \<and> (SK_DEBUG cfg \<and> syms = Some t \<and> t < length (tables env) \<and> fBuiltin (tables env ! t)
        \<and> 1 < length src \<and> (word_cat (src ! 1) (src ! 0) :: 16 word) \<noteq> kVersion cfg \<longrightarrow>
      Rehydrator cfg env src syms = Inl AssertFailed)"
  using Rehydrator_Inr [of cfg env src syms s] Rehydrator_version_mismatch [of cfg syms t env src]
  by blast

lemma constructor_example:
  "Rehydrator (testConfig True) testEnv [11, 0, 2, 0, 1, 120] (Some 0) =
     Inr (testEnv\<lparr>fSrc := [11, 0, 2, 0, 1, 120], fIP := 6, fStringStart := 2\<rparr>)"
  by code_simp

theorem constructor_header_witness:
  "fIP (testEnv\<lparr>fSrc := [11, 0, 2, 0, 1, 120], fIP := 6, fStringStart := 2\<rparr>) =
     4 + unat (word_cat ([11, 0, 2, 0, 1, 120 :: byte] ! 3) ([11, 0, 2, 0, 1, 120 :: byte] ! 2)
               :: 16 word)
   \<and> Rehydrator (testConfig True) testEnv [12, 0, 0, 0] (Some 0) = Inl AssertFailed"
proof
  show "fIP (testEnv\<lparr>fSrc := [11, 0, 2, 0, 1, 120], fIP := 6, fStringStart := 2\<rparr>) =
     4 + unat (word_cat ([11, 0, 2, 0, 1, 120 :: byte] ! 3) ([11, 0, 2, 0, 1, 120 :: byte] ! 2)
               :: 16 word)"
    by (rule constructor_header [THEN conjunct1, THEN mp, OF constructor_example,
          THEN conjunct2, THEN conjunct2, THEN conjunct2, THEN conjunct1])
  have "SK_DEBUG (testConfig True) \<and> Some (0::nat) = Some 0 \<and> 0 < length (tables testEnv)
      \<and> fBuiltin (tables testEnv ! 0) \<and> 1 < length [12, 0, 0, 0 :: byte]
      \<and> (word_cat ([12, 0, 0, 0 :: byte] ! 1) ([12, 0, 0, 0 :: byte] ! 0) :: 16 word)
          \<noteq> kVersion (testConfig True)"
    by (simp add: testConfig_def testEnv_def word_cat_eq)
  then show "Rehydrator (testConfig True) testEnv [12, 0, 0, 0] (Some 0) = Inl AssertFailed"
    by (rule constructor_header [THEN conjunct2, THEN mp])
qed

text \<open>Without assertions a buffer of version 12 is accepted, although version 11 is
  expected.\<close>

theorem constructor_header_counterexample:
  "Rehydrator (testConfig False) testEnv [12, 0, 0, 0] (Some 0) =
     Inr (testEnv\<lparr>fSrc := [12, 0, 0, 0], fIP := 4, fStringStart := 2\<rparr>)
   \<and> kVersion (testConfig False) = 11"
  by code_simp

lemma session_example:
  "session (testConfig True) 3 testEnv exampleSession (Some 0) =
     Inr (\<lparr>prog_fConfig = \<lparr>fKind = 0, fRequiredSkSLVersion = 0, fMaxVersionAllowed = 300\<rparr>,
           prog_fOwnedElements = [], prog_fModifiers = 1, prog_fSymbols = Some 1,
           prog_fPool = False, prog_fUseFlipRTUniform = True\<rparr>,
          testEnv\<lparr>fSrc := exampleSession, fIP := 16, fStringStart := 2,
            tables := tables testEnv @
              [\<lparr>fParent = Some 0, fBuiltin = False, fOwnedSymbols = [], fBindings = []\<rparr>],
            pools := [[], []]\<rparr>)"
  by code_simp

text \<open>
  C9, as the code has it. In a build with assertions (\<open>SK_DEBUG\<close>), a session that
  completes has its cursor exactly at the end of the buffer it was given: the destructor
  asserts it, and no decoder changes the buffer or moves the cursor back.
\<close>

theorem session_consumes_buffer:
  assumes "SK_DEBUG cfg" and "session cfg n env src syms = Inr (p, s')"
  shows "fSrc s' = src \<and> fIP s' = length src"
proof -
  from assms(2) obtain s0 s1 where a: "Rehydrator cfg env src syms = Inr s0"
      "program cfg n s0 = Inr (p, s1)" "Rehydrator_dtor cfg s1 = Inr ((), s')"
    by (auto simp: session_def bind_Inr_iff return_def split: sum.splits)
  from Rehydrator_Inr [OF a(1)] have "fSrc s0 = src" by simp
  moreover from advancesD [OF advances_program a(2)] have "fSrc s1 = fSrc s0"
    by (simp add: sameBuffer_def)
  moreover from a(3) assms(1) have "s' = s1 \<and> fIP s1 = length (fSrc s1)"
    by (auto simp: Rehydrator_dtor_def bind_Inr_iff gets_def SkASSERT_Inr_iff)
  ultimately show ?thesis by simp
qed

theorem session_consumes_buffer_witness:
  "fSrc (testEnv\<lparr>fSrc := exampleSession, fIP := 16, fStringStart := 2,
            tables := tables testEnv @
              [\<lparr>fParent = Some 0, fBuiltin = False, fOwnedSymbols = [], fBindings = []\<rparr>],
            pools := [[], []]\<rparr>) = exampleSession
   \<and> fIP (testEnv\<lparr>fSrc := exampleSession, fIP := 16, fStringStart := 2,
            tables := tables testEnv @
              [\<lparr>fParent = Some 0, fBuiltin = False, fOwnedSymbols = [], fBindings = []\<rparr>],
            pools := [[], []]\<rparr>) = length exampleSession"
proof -
  have "SK_DEBUG (testConfig True)" by (simp add: testConfig_def)
  then show ?thesis using session_example by (rule session_consumes_buffer)
qed

text \<open>Without assertions a session over the same buffer followed by one more byte
  completes with the cursor one byte before the end.\<close>

theorem session_consumes_buffer_counterexample:
  "session (testConfig False) 3 testEnv (exampleSession @ [0]) (Some 0) =
     Inr (\<lparr>prog_fConfig = \<lparr>fKind = 0, fRequiredSkSLVersion = 0, fMaxVersionAllowed = 300\<rparr>,
           prog_fOwnedElements = [], prog_fModifiers = 1, prog_fSymbols = Some 1,
           prog_fPool = False, prog_fUseFlipRTUniform = True\<rparr>,
          testEnv\<lparr>fSrc := exampleSession @ [0], fIP := 16, fStringStart := 2,
            tables := tables testEnv @
              [\<lparr>fParent = Some 0, fBuiltin = False, fOwnedSymbols = [], fBindings = []\<rparr>],
            pools := [[], []]\<rparr>)
   \<and> length (exampleSession @ [0]) = 17"
  by code_simp

subsection \<open>Float literals\<close>

lemma arctan_term_decreasing:
  fixes x :: real
  assumes "0 \<le> x" and "x \<le> 1"
  shows "1 / real (Suc n * 2 + 1) * x ^ (Suc n * 2 + 1) \<le> 1 / real (n * 2 + 1) * x ^ (n * 2 + 1)"
proof -
  have "x ^ (Suc n * 2 + 1) = x ^ (n * 2 + 1) * x ^ 2"
    by (simp add: power_add [symmetric])
  also have "\<dots> \<le> x ^ (n * 2 + 1) * 1"
    using assms by (intro mult_left_mono power_le_one) auto
  finally have p: "x ^ (Suc n * 2 + 1) \<le> x ^ (n * 2 + 1)" by simp
  have "1 / real (Suc n * 2 + 1) * x ^ (Suc n * 2 + 1) \<le> 1 / real (Suc n * 2 + 1) * x ^ (n * 2 + 1)"
    using p by (intro mult_left_mono) auto
  also have "\<dots> \<le> 1 / real (n * 2 + 1) * x ^ (n * 2 + 1)"
    using assms by (intro mult_right_mono divide_left_mono) auto
  finally show ?thesis .
qed

lemma arctan_partial_sums:
  fixes x :: real
  assumes "0 \<le> x" and "x \<le> 1"
  shows "(\<Sum>i<2 * n. (- 1) ^ i * (1 / real (i * 2 + 1) * x ^ (i * 2 + 1))) \<le> arctan x"
    and "arctan x \<le> (\<Sum>i<2 * n + 1. (- 1) ^ i * (1 / real (i * 2 + 1) * x ^ (i * 2 + 1)))"
proof -
  have ax: "\<bar>x\<bar> \<le> 1" using assms by simp
  note L = summable_Leibniz' [of "\<lambda>n. 1 / real (n * 2 + 1) * x ^ (n * 2 + 1)",
      OF zeroseq_arctan_series [OF ax] _ arctan_term_decreasing [OF assms]]
  have pos: "\<And>n. 0 \<le> 1 / real (n * 2 + 1) * x ^ (n * 2 + 1)" using assms by simp
  show "(\<Sum>i<2 * n. (- 1) ^ i * (1 / real (i * 2 + 1) * x ^ (i * 2 + 1))) \<le> arctan x"
    unfolding arctan_series [OF ax] by (rule L(2) [OF pos])
  show "arctan x \<le> (\<Sum>i<2 * n + 1. (- 1) ^ i * (1 / real (i * 2 + 1) * x ^ (i * 2 + 1)))"
    unfolding arctan_series [OF ax] by (rule L(4) [OF pos])
qed

lemma sum_lessThan_numeral:
  "(\<Sum>i<numeral k. f i) = (\<Sum>i<pred_numeral k. f i) + f (pred_numeral k :: nat)"
  by (simp add: numeral_eq_Suc)

lemma sum6: "(\<Sum>i<2 * 3. f i) = f 0 + f 1 + f 2 + f 3 + f 4 + (f (5::nat) :: real)"
  by (simp add: sum_lessThan_numeral)

lemma sum5: "(\<Sum>i<2 * 2 + 1. f i) = f 0 + f 1 + f 2 + f 3 + (f (4::nat) :: real)"
  by (simp add: sum_lessThan_numeral)

lemma sum3: "(\<Sum>i<2 * 1 + 1. f i) = f 0 + f 1 + (f (2::nat) :: real)"
  by (simp add: sum_lessThan_numeral)

lemma sum2: "(\<Sum>i<2 * 1. f i) = f 0 + (f (1::nat) :: real)"
  by (simp add: sum_lessThan_numeral)

lemma arctan_fifth_lower: "(6679449362 / 33837890625 :: real) \<le> arctan (1 / 5)"
  using arctan_partial_sums(1) [of "1 / 5" 3] unfolding sum6 by (simp add: power_divide)

lemma arctan_fifth_upper: "arctan (1 / 5) \<le> (24288907 / 123046875 :: real)"
  using arctan_partial_sums(2) [of "1 / 5" 2] unfolding sum5 by (simp add: power_divide)

lemma arctan_239_lower: "(171362 / 40955757 :: real) \<le> arctan (1 / 239)"
  using arctan_partial_sums(1) [of "1 / 239" 1] unfolding sum2 by (simp add: power_divide)

lemma arctan_239_upper: "arctan (1 / 239) \<le> (48941844013 / 11697168977985 :: real)"
  using arctan_partial_sums(2) [of "1 / 239" 1] unfolding sum3 by (simp add: power_divide)

lemma pi_bounds: "(314159265 / 100000000 :: real) < pi" "pi < (31415927 / 10000000 :: real)"
proof -
  have "pi = 16 * arctan (1 / 5) - 4 * arctan (1 / 239)"
    using machin by simp
  with arctan_fifth_lower arctan_fifth_upper arctan_239_lower arctan_239_upper
  show "(314159265 / 100000000 :: real) < pi" "pi < (31415927 / 10000000 :: real)"
    by linarith+
qed

lemma float_value_pi: "float_value 0x40490FDB = 13176795 / 4194304"
  by (simp add: float_value_def float_magnitude_def float_sign_def float_exponent_def
      float_mantissa_def)

lemma float_mantissa_less: "float_mantissa w < 2 ^ 23"
  by (simp add: float_mantissa_def)

lemma float_magnitude_nonneg: "0 \<le> float_magnitude w"
  by (simp add: float_magnitude_def)

lemma float_magnitude_small:
  assumes "float_exponent w < 128"
  shows "float_magnitude w < 2"
proof (cases "float_exponent w = 0")
  case True
  have "real (float_mantissa w) < 2 ^ 23"
    using float_mantissa_less [of w] by (metis of_nat_less_iff of_nat_numeral of_nat_power)
  also have "\<dots> \<le> (2::real) ^ 149" by (rule power_increasing) simp_all
  finally have "real (float_mantissa w) / 2 ^ 149 < 1" by simp
  with True show ?thesis by (simp add: float_magnitude_def)
next
  case False
  have m: "real (2 ^ 23 + float_mantissa w) < 2 * 2 ^ 23"
    using float_mantissa_less [of w] by simp
  have "(2::real) ^ 23 \<le> 2 ^ (150 - float_exponent w)"
    using assms by (intro power_increasing) simp_all
  then have "real (2 ^ 23 + float_mantissa w) / 2 ^ (150 - float_exponent w)
      \<le> real (2 ^ 23 + float_mantissa w) / 2 ^ 23"
    by (intro divide_left_mono) simp_all
  also have "\<dots> < 2" using m by simp
  finally show ?thesis using False assms by (simp add: float_magnitude_def)
qed

lemma float_magnitude_large:
  assumes "128 < float_exponent w"
  shows "4 \<le> float_magnitude w"
proof (cases "150 \<le> float_exponent w")
  case True
  have "(4::real) \<le> 2 ^ 23 * 1" by simp
  also have "\<dots> \<le> real (2 ^ 23 + float_mantissa w) * 2 ^ (float_exponent w - 150)"
    by (intro mult_mono) simp_all
  finally show ?thesis using True assms by (simp add: float_magnitude_def)
next
  case False
  have "(2::real) ^ (150 - float_exponent w) \<le> 2 ^ 21"
    using assms by (intro power_increasing) simp_all
  then have "(2::real) ^ 23 / 2 ^ 21 \<le> 2 ^ 23 / 2 ^ (150 - float_exponent w)"
    by (intro divide_left_mono) simp_all
  also have "\<dots> \<le> real (2 ^ 23 + float_mantissa w) / 2 ^ (150 - float_exponent w)"
    by (intro divide_right_mono) simp_all
  finally show ?thesis using False assms by (simp add: float_magnitude_def)
qed

lemma float_magnitude_128:
  assumes "float_exponent w = 128"
  shows "float_magnitude w = real (2 ^ 23 + float_mantissa w) / 4194304"
  using assms by (simp add: float_magnitude_def)

lemma float_value_cases:
  "float_value w \<le> 13176794 / 4194304 \<or> float_value w = 13176795 / 4194304
     \<or> 13176796 / 4194304 \<le> float_value w"
proof (cases "float_sign w")
  case True
  then have "float_value w \<le> 0" using float_magnitude_nonneg [of w] by (simp add: float_value_def)
  then show ?thesis by simp
next
  case False
  then have v: "float_value w = float_magnitude w" by (simp add: float_value_def)
  consider "float_exponent w < 128" | "float_exponent w = 128" | "128 < float_exponent w"
    by linarith
  then show ?thesis
  proof cases
    case 1
    from float_magnitude_small [OF this] show ?thesis unfolding v by simp
  next
    case 2
    define k where "k = 2 ^ 23 + float_mantissa w"
    have "k \<le> 13176794 \<or> k = 13176795 \<or> 13176796 \<le> k" by linarith
    then have "real k \<le> 13176794 \<or> real k = 13176795 \<or> 13176796 \<le> real k"
      by (metis of_nat_le_iff of_nat_numeral)
    then show ?thesis unfolding v float_magnitude_128 [OF 2] k_def [symmetric]
      by (simp add: divide_le_cancel)
  next
    case 3
    from float_magnitude_large [OF this] show ?thesis unfolding v by simp
  qed
qed

lemma float_nearest_pi: "\<bar>float_value 0x40490FDB - pi\<bar> \<le> \<bar>float_value w - pi\<bar>"
  using float_value_cases [of w] pi_bounds unfolding float_value_pi by argo

lemma testCommandOf_25: "commandOf (testConfig d) 25 = Some kFloatLiteral_Command"
  by (simp add: testConfig_def testCommandOf_def commandList_def)

lemma float_example:
  "expression (testConfig True) (Suc 2)
     (testState [25, 50, 0xFF, 0xFF, 10, 0, 0xDB, 0x0F, 0x49, 0x40, 5, 102, 108, 111, 97, 116]) =
   Inr (Some (FloatLiteral 0x40490FDB (Some 2)),
        testState [25, 50, 0xFF, 0xFF, 10, 0, 0xDB, 0x0F, 0x49, 0x40, 5, 102, 108, 111, 97, 116]
          \<lparr>fIP := 10\<rparr>)"
  by code_simp

text \<open>
  C5. A FloatLiteral expression decodes its type and then four bytes; the literal is the
  float whose 32 bits are those four bytes, unchanged. When the bits are \<open>0x40490FDB\<close>
  the literal is the binary32 value nearest to \<open>\<pi>\<close>: no finite float is closer.
\<close>

theorem floatLiteral_bits:
  assumes "readU8 s = Inr (kind, s1)" and "commandOf cfg kind = Some kFloatLiteral_Command"
    and "expression cfg (Suc n) s = Inr (r, s')"
  shows "\<exists>ty s2 w. type cfg n s1 = Inr (ty, s2) \<and> readS32 s2 = Inr (w, s')
           \<and> r = Some (FloatLiteral w ty)
           \<and> w = word_cat (word_cat (fSrc s2 ! (fIP s2 + 3)) (fSrc s2 ! (fIP s2 + 2)) :: 16 word)
                  (word_cat (fSrc s2 ! (fIP s2 + 1)) (fSrc s2 ! fIP s2) :: 16 word)
           \<and> (w = 0x40490FDB \<longrightarrow>
                (\<forall>w'. float_finite w' \<longrightarrow> \<bar>float_value w - pi\<bar> \<le> \<bar>float_value w' - pi\<bar>))"
proof -
  from assms obtain ty s2 w where a: "type cfg n s1 = Inr (ty, s2)" "readS32 s2 = Inr (w, s')"
      "r = Some (FloatLiteral w ty)"
    by (auto simp: bind_Inr_iff return_def)
  from a(2) have "w = word_cat (word_cat (fSrc s2 ! (fIP s2 + 3)) (fSrc s2 ! (fIP s2 + 2)) :: 16 word)
                  (word_cat (fSrc s2 ! (fIP s2 + 1)) (fSrc s2 ! fIP s2) :: 16 word)"
    unfolding readS32_def by (rule readU32_bytes [THEN conjunct2, THEN conjunct2])
  moreover have "w = 0x40490FDB \<longrightarrow>
      (\<forall>w'. float_finite w' \<longrightarrow> \<bar>float_value w - pi\<bar> \<le> \<bar>float_value w' - pi\<bar>)"
    using float_nearest_pi by blast
  ultimately show ?thesis using a by blast
qed

text \<open>The wire bytes \<open>DB 0F 49 40\<close> decode to the literal with the bits
  \<open>0x40490FDB\<close>.\<close>

theorem floatLiteral_bits_witness:
  "\<exists>ty s2 w.
     type (testConfig True) 2
       (testState [25, 50, 0xFF, 0xFF, 10, 0, 0xDB, 0x0F, 0x49, 0x40, 5, 102, 108, 111, 97, 116]
          \<lparr>fIP := 1\<rparr>) = Inr (ty, s2)
     \<and> readS32 s2 = Inr (w,
          testState [25, 50, 0xFF, 0xFF, 10, 0, 0xDB, 0x0F, 0x49, 0x40, 5, 102, 108, 111, 97, 116]
            \<lparr>fIP := 10\<rparr>)
     \<and> Some (FloatLiteral 0x40490FDB (Some 2)) = Some (FloatLiteral w ty)
     \<and> w = word_cat (word_cat (fSrc s2 ! (fIP s2 + 3)) (fSrc s2 ! (fIP s2 + 2)) :: 16 word)
                  (word_cat (fSrc s2 ! (fIP s2 + 1)) (fSrc s2 ! fIP s2) :: 16 word)
     \<and> (w = 0x40490FDB \<longrightarrow>
          (\<forall>w'. float_finite w' \<longrightarrow> \<bar>float_value w - pi\<bar> \<le> \<bar>float_value w' - pi\<bar>))"
  by (rule floatLiteral_bits [OF readU8_testState testCommandOf_25 float_example])

subsection \<open>The bound on the call depth is adequate\<close>

text \<open>
  Every decoder reads a byte before it calls a decoder again, so a bound larger than the
  number of bytes left is never used up (\<open>fuel_sufficient\<close>, \<open>session_fuel\<close>), and
  a decode that does not use up its bound gives the same result under every larger bound
  (\<open>fuel_monotone\<close>): the results of the model do not depend on the bound.
\<close>

lemma noFuel_fuelOk: "noFuel m \<Longrightarrow> fuelOk n m"
  by (simp add: noFuel_def fuelOk_def)

lemma fuelOk_0 [simp]: "fuelOk 0 m"
  by (simp add: fuelOk_def)

lemma noFuel_bind: "noFuel m \<Longrightarrow> (\<And>x. noFuel (f x)) \<Longrightarrow> noFuel (bind m f)"
  by (auto simp: noFuel_def bind_Inl_iff)

lemma noFuel_if: "noFuel a \<Longrightarrow> noFuel b \<Longrightarrow> noFuel (if c then a else b)"
  by simp

lemma noFuel_return: "noFuel (return x)"
  by (simp add: noFuel_def return_def)

lemma noFuel_fail: "e \<noteq> OutOfFuel \<Longrightarrow> noFuel (fail e)"
  by (simp add: noFuel_def fail_def)

lemma noFuel_gets: "noFuel (gets f)"
  by (simp add: noFuel_def gets_def)

lemma noFuel_modify: "noFuel (modify f)"
  by (simp add: noFuel_def modify_def)

lemma noFuel_SkASSERT: "noFuel (SkASSERT cfg c)"
  by (simp add: SkASSERT_def noFuel_fail noFuel_return)

lemma noFuel_readU8: "noFuel readU8"
  by (simp add: noFuel_def readU8_def)

lemma noFuel_readU16: "noFuel readU16"
  by (simp add: noFuel_def readU16_def)

lemma noFuel_readU32: "noFuel readU32"
  by (simp add: noFuel_def readU32_def)

lemma noFuel_readS: "noFuel readS8" "noFuel readS16" "noFuel readS32"
  by (simp_all add: readS8_def readS16_def readS32_def noFuel_readU8 noFuel_readU16 noFuel_readU32)

lemma noFuel_readString: "noFuel readString"
  unfolding readString_def
  by (rule noFuel_bind [OF noFuel_readU16]) (simp add: noFuel_def Let_def)

lemma noFuel_derefSymbol: "noFuel (derefSymbol p)"
  by (simp add: noFuel_def derefSymbol_def split: option.splits)

lemma noFuel_currentTable: "noFuel currentTable"
  by (simp add: noFuel_def currentTable_def split: option.splits)

lemma noFuel_isBuiltin: "noFuel isBuiltin"
  unfolding isBuiltin_def
  by (rule noFuel_bind [OF noFuel_currentTable]) (simp add: split_def noFuel_return)

lemma noFuel_takeOwnershipOfSymbol: "noFuel (takeOwnershipOfSymbol x)"
  unfolding takeOwnershipOfSymbol_def
  by (rule noFuel_bind [OF noFuel_currentTable]) (simp add: split_def noFuel_def Let_def)

lemma noFuel_addWithoutOwnership: "noFuel (addWithoutOwnership cfg p)"
  unfolding addWithoutOwnership_def
  by (intro noFuel_bind noFuel_derefSymbol noFuel_currentTable)
     (simp add: split_def noFuel_def)

lemma rootOf_noFuel: "rootOf k ts a \<noteq> Inl OutOfFuel"
  by (induction k ts a rule: rootOf.induct) (auto split: option.splits)

lemma noFuel_lookupInRoot: "noFuel (lookupInRoot name)"
  by (auto simp: noFuel_def lookupInRoot_def rootOf_noFuel split: option.splits sum.splits)

lemma noFuel_addSymbol: "noFuel (addSymbol i p)"
  by (simp add: addSymbol_def noFuel_modify)

lemma noFuel_modifiersPool_add: "noFuel (modifiersPool_add m)"
  by (simp add: noFuel_def modifiersPool_add_def split: option.splits)

lemmas noFuel_basic =
  noFuel_bind noFuel_if noFuel_return noFuel_gets noFuel_modify noFuel_SkASSERT
  noFuel_readU8 noFuel_readU16 noFuel_readU32 noFuel_readS noFuel_readString
  noFuel_derefSymbol noFuel_currentTable noFuel_isBuiltin noFuel_takeOwnershipOfSymbol
  noFuel_addWithoutOwnership noFuel_lookupInRoot noFuel_addSymbol noFuel_modifiersPool_add

lemma noFuel_symbolRef: "noFuel (symbolRef cfg)"
  unfolding symbolRef_def by (intro noFuel_basic noFuel_fail) simp

lemma noFuel_possiblyBuiltinSymbolRef: "noFuel (possiblyBuiltinSymbolRef cfg)"
  unfolding possiblyBuiltinSymbolRef_def by (intro noFuel_basic noFuel_fail) simp

lemma noFuel_layout: "noFuel (layout cfg)"
  unfolding layout_def by (intro noFuel_basic)

lemma noFuel_modifiers: "noFuel (modifiers cfg)"
  unfolding modifiers_def by (intro noFuel_basic noFuel_layout)

lemma noFuel_visibleEntry: "noFuel (visibleEntry cfg owned)"
  unfolding visibleEntry_def by (intro noFuel_basic noFuel_fail) simp

lemma noFuel_pushSymbolTable: "noFuel (pushSymbolTable b)"
  by (simp add: pushSymbolTable_def noFuel_modify)

lemma noFuel_singleArgument: "noFuel (singleArgument cfg args)"
  unfolding singleArgument_def by (intro noFuel_basic noFuel_fail) simp

lemma noFuel_assertIs: "noFuel (assertIs cfg P p)"
  unfolding assertIs_def by (intro noFuel_basic)

lemma noFuel_assertNonNullIs: "noFuel (assertNonNullIs cfg P p)"
  unfolding assertNonNullIs_def by (intro noFuel_basic)

lemma noFuel_setDefinition: "noFuel (setDefinition d e)"
  unfolding setDefinition_def by (intro noFuel_basic)

lemma noFuel_forN: "noFuel m \<Longrightarrow> noFuel (forN k m)"
  by (induction k) (auto intro: noFuel_basic)

lemma noFuel_repeat: "noFuel m \<Longrightarrow> noFuel (repeat k m)"
  by (induction k) (auto intro!: noFuel_basic)

lemmas noFuel_all = noFuel_basic noFuel_symbolRef noFuel_possiblyBuiltinSymbolRef
  noFuel_layout noFuel_modifiers noFuel_visibleEntry noFuel_pushSymbolTable
  noFuel_singleArgument noFuel_assertIs noFuel_assertNonNullIs noFuel_setDefinition
  noFuel_forN noFuel_repeat

lemma sameBuffer_remaining: "sameBuffer s s' \<Longrightarrow> remaining s' \<le> remaining s"
  by (simp add: sameBuffer_def remaining_def diff_le_mono2)

lemma fuelOk_bind:
  assumes "fuelOk n m" and "advances m" and "\<And>x. fuelOk n (f x)"
  shows "fuelOk n (bind m f)"
  unfolding fuelOk_def
proof (intro allI impI)
  fix s assume r: "remaining s < n"
  show "bind m f s \<noteq> Inl OutOfFuel"
  proof (cases "m s")
    case (Inl e)
    with assms(1) r show ?thesis by (auto simp: fuelOk_def)
  next
    case (Inr a)
    obtain x s1 where a: "a = (x, s1)" by (cases a)
    from advancesD [OF assms(2)] Inr a have "remaining s1 \<le> remaining s"
      by (auto intro: sameBuffer_remaining)
    with r assms(3) [of x] have "f x s1 \<noteq> Inl OutOfFuel" by (simp add: fuelOk_def)
    with Inr a show ?thesis by simp
  qed
qed

lemma fuelOk_if: "fuelOk n a \<Longrightarrow> fuelOk n b \<Longrightarrow> fuelOk n (if c then a else b)"
  by simp

lemma fuelOk_readU8_step:
  assumes "\<And>k. fuelOk n (f k)"
  shows "fuelOk (Suc n) (bind readU8 f)"
  unfolding fuelOk_def
proof (intro allI impI)
  fix s assume r: "remaining s < Suc n"
  show "bind readU8 f s \<noteq> Inl OutOfFuel"
  proof (cases "fIP s < length (fSrc s)")
    case False
    then show ?thesis by (simp add: readU8_def bind_def)
  next
    case True
    then have "readU8 s = Inr (fSrc s ! fIP s, s\<lparr>fIP := fIP s + 1\<rparr>)"
      by (simp add: readU8_def)
    moreover have "remaining (s\<lparr>fIP := fIP s + 1\<rparr>) < n"
      using r True by (simp add: remaining_def)
    ultimately show ?thesis using assms by (simp add: fuelOk_def)
  qed
qed

lemmas noFuel_leaf =
  noFuel_return noFuel_gets noFuel_modify noFuel_SkASSERT
  noFuel_readU8 noFuel_readU16 noFuel_readU32 noFuel_readS noFuel_readString
  noFuel_derefSymbol noFuel_currentTable noFuel_isBuiltin noFuel_takeOwnershipOfSymbol
  noFuel_addWithoutOwnership noFuel_lookupInRoot noFuel_addSymbol noFuel_modifiersPool_add
  noFuel_symbolRef noFuel_possiblyBuiltinSymbolRef
  noFuel_layout noFuel_modifiers noFuel_visibleEntry noFuel_pushSymbolTable
  noFuel_singleArgument noFuel_assertIs noFuel_assertNonNullIs noFuel_setDefinition

lemmas fuelOk_leaf = noFuel_leaf [THEN noFuel_fuelOk]

lemma fuelOk_fail: "e \<noteq> OutOfFuel \<Longrightarrow> fuelOk n (fail e)"
  by (simp add: noFuel_fuelOk noFuel_fail)

lemma fuelOk_repeat: "fuelOk n m \<Longrightarrow> advances m \<Longrightarrow> fuelOk n (repeat k m)"
  by (induction k) (auto intro!: fuelOk_bind fuelOk_leaf)

lemma fuelOk_forN: "fuelOk n m \<Longrightarrow> advances m \<Longrightarrow> fuelOk n (forN k m)"
  by (induction k) (auto intro!: fuelOk_bind fuelOk_leaf)

lemmas fuelOk_rules = fuelOk_bind fuelOk_if fuelOk_repeat fuelOk_forN fuelOk_leaf

lemma fuelOk_type_step: "fuelOk n (symbol cfg n) \<Longrightarrow> fuelOk n (type cfg n)"
  unfolding type.simps
  by (intro fuelOk_rules advances_basic advances_symbol)

lemma fuelOk_symbol: "fuelOk n (symbol cfg n)"
proof (induction n)
  case 0
  show ?case by simp
next
  case (Suc n)
  note ty = fuelOk_type_step [OF Suc]
  show ?case
    unfolding symbol.simps
    by (rule fuelOk_readU8_step)
       (intro fuelOk_rules Suc ty advances_basic advances_symbol advances_type advances_layout)
qed

lemma fuelOk_type: "fuelOk n (type cfg n)"
  by (rule fuelOk_type_step [OF fuelOk_symbol])

lemma fuelOk_symbolTable: "fuelOk n (symbolTable cfg n)"
  unfolding symbolTable_def
  by (intro fuelOk_rules fuelOk_symbol advances_basic advances_symbol advances_pushSymbolTable
      advances_visibleEntry)

lemma fuelOk_Auto:
  "fuelOk n body \<Longrightarrow> advances body \<Longrightarrow> fuelOk n (AutoRehydratorSymbolTable cfg n body)"
  unfolding AutoRehydratorSymbolTable_def AutoRehydratorSymbolTable_ctor_def
    AutoRehydratorSymbolTable_dtor_def
  by (intro fuelOk_rules fuelOk_symbolTable advances_basic advances_symbolTable advances_modify)
     simp_all

lemma fuelOk_expressionArray_step:
  "fuelOk n (expression cfg n) \<Longrightarrow> fuelOk n (expressionArray cfg n)"
  unfolding expressionArray.simps
  by (intro fuelOk_rules advances_basic advances_expression)

lemma fuelOk_statement_expression:
  "fuelOk n (statement cfg n) \<and> fuelOk n (expression cfg n)"
proof (induction n)
  case 0
  show ?case by simp
next
  case (Suc n)
  then have st: "fuelOk n (statement cfg n)" and ex: "fuelOk n (expression cfg n)" by simp_all
  note ea = fuelOk_expressionArray_step [OF ex]
  note adv = advances_basic advances_Auto advances_type advances_singleArgument
    advances_statement advances_expression advances_expressionArray_step
  have "fuelOk (Suc n) (statement cfg (Suc n))"
    unfolding statement.simps
    by (rule fuelOk_readU8_step)
       (intro fuelOk_rules fuelOk_Auto fuelOk_type st ex ea adv)
  moreover have "fuelOk (Suc n) (expression cfg (Suc n))"
    unfolding expression.simps
    by (rule fuelOk_readU8_step)
       (intro fuelOk_rules fuelOk_Auto fuelOk_type st ex ea adv)
  ultimately show ?case by simp
qed

lemma fuelOk_statement: "fuelOk n (statement cfg n)"
  and fuelOk_expression: "fuelOk n (expression cfg n)"
  using fuelOk_statement_expression by simp_all

lemma fuelOk_case_option:
  "fuelOk n a \<Longrightarrow> (\<And>x. fuelOk n (b x)) \<Longrightarrow> fuelOk n (case v of None \<Rightarrow> a | Some x \<Rightarrow> b x)"
  by (cases v) simp_all

lemma fuelOk_element: "fuelOk n (element cfg n)"
proof (induction n)
  case 0
  show ?case by simp
next
  case (Suc n)
  show ?case
    unfolding element.simps
    by (rule fuelOk_readU8_step)
       (intro fuelOk_rules fuelOk_case_option fuelOk_fail fuelOk_statement fuelOk_symbol Suc
          advances_basic advances_statement advances_symbol advances_assertIs
          advances_assertNonNullIs advances_setDefinition advances_case_option advances_element,
        simp)
qed

lemma readU8_bind_consumes:
  assumes "\<And>k. advances (f k)" and "bind readU8 f s = Inr (r, s')"
  shows "remaining s' < remaining s"
proof -
  from assms(2) obtain k s1 where a: "readU8 s = Inr (k, s1)" "f k s1 = Inr (r, s')"
    by (auto simp: bind_Inr_iff)
  from a(1) have "fIP s < length (fSrc s)" "s1 = s\<lparr>fIP := fIP s + 1\<rparr>"
    by (auto simp: readU8_def split: if_splits)
  moreover from advancesD [OF assms(1) a(2)] have "fSrc s' = fSrc s1" "fIP s1 \<le> fIP s'"
    by (simp_all add: sameBuffer_def)
  ultimately show ?thesis by (simp add: remaining_def)
qed

lemma element_consumes:
  assumes "element cfg n s = Inr (r, s')"
  shows "remaining s' < remaining s"
proof (cases n)
  case 0
  with assms show ?thesis by (simp add: fail_def)
next
  case (Suc m)
  show ?thesis
    using assms unfolding Suc element.simps
    by (rule readU8_bind_consumes [rotated])
       (intro advances_basic advances_statement advances_symbol advances_assertIs
          advances_assertNonNullIs advances_setDefinition advances_case_option advances_element)
qed

lemma elementsLoop_fuel:
  "remaining s < n \<Longrightarrow> remaining s < k \<Longrightarrow> elementsLoop cfg n k s \<noteq> Inl OutOfFuel"
proof (induction k arbitrary: s)
  case 0
  then show ?case by simp
next
  case (Suc k)
  show ?case
  proof (cases "element cfg n s")
    case (Inl e)
    with fuelOk_element [of n cfg] Suc.prems(1) show ?thesis by (auto simp: fuelOk_def)
  next
    case (Inr a)
    obtain elem s1 where a: "a = (elem, s1)" by (cases a)
    show ?thesis
    proof (cases elem)
      case None
      with Inr a show ?thesis by (simp add: return_def)
    next
      case (Some e)
      from element_consumes Inr a have "remaining s1 < remaining s" by blast
      with Suc.prems have "elementsLoop cfg n k s1 \<noteq> Inl OutOfFuel"
        by (intro Suc.IH) simp_all
      with Inr a Some show ?thesis by (auto simp: bind_Inl_iff return_def)
    qed
  qed
qed

lemma fuelOk_elementsLoop: "fuelOk n (elementsLoop cfg n n)"
  by (simp add: fuelOk_def elementsLoop_fuel)

lemma fuelOk_elements: "fuelOk n (elements cfg n)"
  unfolding elements_def
  by (intro fuelOk_rules fuelOk_elementsLoop advances_basic)

lemma noFuel_external: "noFuel (external f)"
  by (simp add: external_def noFuel_modify)

lemma noFuel_takeMemoryPool: "noFuel takeMemoryPool"
  by (simp add: noFuel_def takeMemoryPool_def split: option.splits)

lemma noFuel_newModifiersPool: "noFuel newModifiersPool"
  by (simp add: noFuel_def newModifiersPool_def)

lemma noFuel_popSymbolTable: "noFuel popSymbolTable"
  unfolding popSymbolTable_def
  by (rule noFuel_bind [OF noFuel_currentTable]) (simp add: split_def noFuel_modify)

lemma noFuel_programFinish: "noFuel (programFinish cfg conf oc om mods elems)"
  unfolding programFinish_def
  by (intro noFuel_basic noFuel_external noFuel_takeMemoryPool noFuel_popSymbolTable)

lemma fuelOk_program: "fuelOk n (program cfg n)"
  unfolding program_def Let_def
  by (intro fuelOk_rules fuelOk_symbolTable fuelOk_elements
        noFuel_fuelOk [OF noFuel_programFinish] noFuel_fuelOk [OF noFuel_external]
        noFuel_fuelOk [OF noFuel_newModifiersPool]
        advances_basic advances_modify advances_newModifiersPool advances_external
        advances_symbolTable advances_elements) simp_all

lemma Rehydrator_noFuel: "Rehydrator cfg env src syms \<noteq> Inl OutOfFuel"
proof -
  have "noFuel (bind (modify (\<lambda>s. s\<lparr>fSrc := src, fIP := 0, fStringStart := 0,
                                  fSymbolTable := syms, fSymbols := []\<rparr>)) (\<lambda>_.
            bind (SkASSERT cfg (syms \<noteq> None)) (\<lambda>_.
            bind (if SK_DEBUG cfg then bind isBuiltin (\<lambda>b. SkASSERT cfg b) else return ()) (\<lambda>_.
            bind readU16 (\<lambda>version.
            bind (SkASSERT cfg (version = kVersion cfg)) (\<lambda>_.
            bind (modify (\<lambda>s. s\<lparr>fStringStart := fIP s\<rparr>)) (\<lambda>_.
            bind readU16 (\<lambda>len.
            modify (\<lambda>s. s\<lparr>fIP := fIP s + unat len\<rparr>)))))))))"
    by (intro noFuel_basic)
  then show ?thesis
    by (auto simp: Rehydrator_def noFuel_def split: sum.splits)
qed

lemma session_fuel:
  assumes "length src < n"
  shows "session cfg n env src syms \<noteq> Inl OutOfFuel"
proof (cases "Rehydrator cfg env src syms")
  case (Inl e)
  with Rehydrator_noFuel [of cfg env src syms] show ?thesis by (simp add: session_def)
next
  case (Inr s0)
  from Rehydrator_Inr [OF Inr] have "fSrc s0 = src" by simp
  then have r: "remaining s0 < n" using assms by (simp add: remaining_def)
  have "noFuel (Rehydrator_dtor cfg)"
    unfolding Rehydrator_dtor_def by (intro noFuel_basic)
  then have "fuelOk n (bind (program cfg n) (\<lambda>p. bind (Rehydrator_dtor cfg) (\<lambda>_. return p)))"
    by (intro fuelOk_rules fuelOk_program advances_program noFuel_fuelOk noFuel_basic)
  with r Inr show ?thesis by (simp add: session_def fuelOk_def)
qed

lemma stableD: "stable m m' \<Longrightarrow> m s \<noteq> Inl OutOfFuel \<Longrightarrow> m' s = m s"
  by (simp add: stable_def)

lemma stable_refl: "stable m m"
  by (simp add: stable_def)

lemma stable_trans: "stable a b \<Longrightarrow> stable b c \<Longrightarrow> stable a c"
  by (simp add: stable_def)

lemma stable_fail: "stable (fail OutOfFuel) m"
  by (simp add: stable_def fail_def)

lemma stable_bind:
  assumes "stable m m'" and "\<And>x. stable (f x) (f' x)"
  shows "stable (bind m f) (bind m' f')"
  unfolding stable_def
proof (intro allI impI)
  fix s assume a: "bind m f s \<noteq> Inl OutOfFuel"
  then have "m s \<noteq> Inl OutOfFuel" by (auto simp: bind_def)
  with assms(1) have m: "m' s = m s" by (simp add: stable_def)
  show "bind m' f' s = bind m f s"
  proof (cases "m s")
    case (Inl e)
    with m show ?thesis by simp
  next
    case (Inr p)
    obtain x s1 where p: "p = (x, s1)" by (cases p)
    with a Inr have "f x s1 \<noteq> Inl OutOfFuel" by simp
    with assms(2) [of x] have "f' x s1 = f x s1" by (simp add: stable_def)
    with Inr p m show ?thesis by simp
  qed
qed

lemma stable_if:
  "stable a a' \<Longrightarrow> stable b b' \<Longrightarrow> stable (if c then a else b) (if c then a' else b')"
  by simp

lemma stable_case_option:
  "stable a a' \<Longrightarrow> (\<And>x. stable (b x) (b' x)) \<Longrightarrow>
     stable (case v of None \<Rightarrow> a | Some x \<Rightarrow> b x) (case v of None \<Rightarrow> a' | Some x \<Rightarrow> b' x)"
  by (cases v) simp_all

lemma stable_repeat: "stable m m' \<Longrightarrow> stable (repeat k m) (repeat k m')"
  by (induction k) (auto intro!: stable_bind stable_refl)

lemma stable_forN: "stable m m' \<Longrightarrow> stable (forN k m) (forN k m')"
  by (induction k) (auto intro!: stable_bind stable_refl)

lemmas stable_rules = stable_bind stable_if stable_case_option stable_repeat stable_forN

lemma stable_type_step:
  "stable (symbol cfg n) (symbol cfg n') \<Longrightarrow> stable (type cfg n) (type cfg n')"
  unfolding type.simps by (intro stable_rules stable_refl)

lemma stable_symbol_step:
  assumes "stable (symbol cfg n) (symbol cfg n')"
  shows "stable (symbol cfg (Suc n)) (symbol cfg (Suc n'))"
  unfolding symbol.simps
  by (intro stable_rules assms stable_type_step [OF assms] stable_refl)

lemma stable_symbol_Suc: "stable (symbol cfg n) (symbol cfg (Suc n))"
proof (induction n)
  case 0
  show ?case by (simp add: stable_fail)
next
  case (Suc n)
  then show ?case by (rule stable_symbol_step)
qed

lemma stable_symbolTable_step:
  "stable (symbol cfg n) (symbol cfg n') \<Longrightarrow> stable (symbolTable cfg n) (symbolTable cfg n')"
  unfolding symbolTable_def by (intro stable_rules stable_refl)

lemma stable_Auto_step:
  "stable (symbol cfg n) (symbol cfg n') \<Longrightarrow> stable body body' \<Longrightarrow>
     stable (AutoRehydratorSymbolTable cfg n body) (AutoRehydratorSymbolTable cfg n' body')"
  unfolding AutoRehydratorSymbolTable_def AutoRehydratorSymbolTable_ctor_def
  by (intro stable_rules stable_symbolTable_step stable_refl)

lemma stable_expressionArray_step:
  "stable (expression cfg n) (expression cfg n') \<Longrightarrow>
     stable (expressionArray cfg n) (expressionArray cfg n')"
  unfolding expressionArray.simps by (intro stable_rules stable_refl)

lemma stable_statement_step:
  assumes "stable (symbol cfg n) (symbol cfg n')"
    and "stable (statement cfg n) (statement cfg n')"
    and "stable (expression cfg n) (expression cfg n')"
  shows "stable (statement cfg (Suc n)) (statement cfg (Suc n'))"
  unfolding statement.simps
  by (intro stable_rules stable_Auto_step assms stable_type_step [OF assms(1)]
      stable_expressionArray_step stable_refl)

lemma stable_expression_step:
  assumes "stable (symbol cfg n) (symbol cfg n')"
    and "stable (expression cfg n) (expression cfg n')"
  shows "stable (expression cfg (Suc n)) (expression cfg (Suc n'))"
  unfolding expression.simps
  by (intro stable_rules assms stable_type_step [OF assms(1)]
      stable_expressionArray_step stable_refl)

lemma stable_statement_expression_Suc:
  "stable (statement cfg n) (statement cfg (Suc n))
   \<and> stable (expression cfg n) (expression cfg (Suc n))"
proof (induction n)
  case 0
  show ?case by (simp add: stable_fail)
next
  case (Suc n)
  then show ?case
    by (intro conjI stable_statement_step stable_expression_step stable_symbol_Suc) simp_all
qed

lemma stable_element_step:
  assumes "stable (symbol cfg n) (symbol cfg n')"
    and "stable (statement cfg n) (statement cfg n')"
    and "stable (element cfg n) (element cfg n')"
  shows "stable (element cfg (Suc n)) (element cfg (Suc n'))"
  unfolding element.simps
  by (intro stable_rules assms stable_refl)

lemma stable_element_Suc: "stable (element cfg n) (element cfg (Suc n))"
proof (induction n)
  case 0
  show ?case by (simp add: stable_fail)
next
  case (Suc n)
  then show ?case
    using stable_statement_expression_Suc [of cfg n]
    by (intro stable_element_step stable_symbol_Suc) simp_all
qed

lemma stable_elementsLoop_step:
  assumes "stable (element cfg n) (element cfg n')"
    and "stable (elementsLoop cfg n k) (elementsLoop cfg n' k')"
  shows "stable (elementsLoop cfg n (Suc k)) (elementsLoop cfg n' (Suc k'))"
  unfolding elementsLoop.simps
  by (intro stable_rules assms stable_refl)

lemma stable_elementsLoop:
  assumes "stable (element cfg n) (element cfg n')"
  shows "stable (elementsLoop cfg n k) (elementsLoop cfg n' (k + d))"
proof (induction k)
  case 0
  show ?case by (simp add: stable_fail)
next
  case (Suc k)
  from stable_elementsLoop_step [OF assms Suc] show ?case by simp
qed

lemma stable_elements_Suc: "stable (elements cfg n) (elements cfg (Suc n))"
proof -
  have "stable (elementsLoop cfg n n) (elementsLoop cfg (Suc n) (n + 1))"
    by (rule stable_elementsLoop [OF stable_element_Suc])
  then show ?thesis
    unfolding elements_def by (intro stable_rules stable_refl) simp
qed

lemma stable_program_Suc: "stable (program cfg n) (program cfg (Suc n))"
  unfolding program_def Let_def
  by (intro stable_rules stable_symbolTable_step stable_symbol_Suc stable_elements_Suc
      stable_refl)

lemma stable_upto:
  assumes "\<And>n. stable (f n) (f (Suc n))"
  shows "stable (f n) (f (n + d))"
proof (induction d)
  case 0
  show ?case by (simp add: stable_refl)
next
  case (Suc d)
  from stable_trans [OF Suc assms] show ?case by simp
qed

lemma fuel_monotone:
  assumes "n \<le> n'"
  shows "symbol cfg n s \<noteq> Inl OutOfFuel \<Longrightarrow> symbol cfg n' s = symbol cfg n s"
    and "statement cfg n s \<noteq> Inl OutOfFuel \<Longrightarrow> statement cfg n' s = statement cfg n s"
    and "expression cfg n s \<noteq> Inl OutOfFuel \<Longrightarrow> expression cfg n' s = expression cfg n s"
    and "element cfg n s \<noteq> Inl OutOfFuel \<Longrightarrow> element cfg n' s = element cfg n s"
    and "program cfg n s \<noteq> Inl OutOfFuel \<Longrightarrow> program cfg n' s = program cfg n s"
proof -
  from assms obtain d where d: "n' = n + d" using le_Suc_ex by blast
  show "symbol cfg n s \<noteq> Inl OutOfFuel \<Longrightarrow> symbol cfg n' s = symbol cfg n s"
    unfolding d by (rule stableD [OF stable_upto [of "symbol cfg"]]) (rule stable_symbol_Suc)
  show "statement cfg n s \<noteq> Inl OutOfFuel \<Longrightarrow> statement cfg n' s = statement cfg n s"
    unfolding d by (rule stableD [OF stable_upto [of "statement cfg"]])
      (rule stable_statement_expression_Suc [THEN conjunct1])
  show "expression cfg n s \<noteq> Inl OutOfFuel \<Longrightarrow> expression cfg n' s = expression cfg n s"
    unfolding d by (rule stableD [OF stable_upto [of "expression cfg"]])
      (rule stable_statement_expression_Suc [THEN conjunct2])
  show "element cfg n s \<noteq> Inl OutOfFuel \<Longrightarrow> element cfg n' s = element cfg n s"
    unfolding d by (rule stableD [OF stable_upto [of "element cfg"]]) (rule stable_element_Suc)
  show "program cfg n s \<noteq> Inl OutOfFuel \<Longrightarrow> program cfg n' s = program cfg n s"
    unfolding d by (rule stableD [OF stable_upto [of "program cfg"]]) (rule stable_program_Suc)
qed

lemma fuel_sufficient:
  assumes "length (fSrc s) - fIP s < n"
  shows "symbol cfg n s \<noteq> Inl OutOfFuel" and "statement cfg n s \<noteq> Inl OutOfFuel"
    and "expression cfg n s \<noteq> Inl OutOfFuel" and "element cfg n s \<noteq> Inl OutOfFuel"
    and "symbolTable cfg n s \<noteq> Inl OutOfFuel" and "program cfg n s \<noteq> Inl OutOfFuel"
  using assms fuelOk_symbol [of n cfg] fuelOk_statement [of n cfg] fuelOk_expression [of n cfg]
    fuelOk_element [of n cfg] fuelOk_symbolTable [of n cfg] fuelOk_program [of n cfg]
  by (simp_all add: fuelOk_def remaining_def)

end
